theory Spec2Isabelle
  imports Complex_Main "HOL-Library.Sublist"
begin

section \<open>Values crossing the JavaScript / SQL boundary\<close>

text \<open>
  The front end (\<^verbatim>\<open>lib/catalog.js\<close>) builds one SQL statement, binds JavaScript values
  to its \<^verbatim>\<open>?\<close> placeholders and converts the rows that come back into GeoJSON features.
  Doubles are modelled as \<^typ>\<open>real\<close> (comparisons of finite doubles are exact), timestamps
  as \<^typ>\<open>int\<close> (ticks since the epoch), a string as the list of its characters
  (\<^typ>\<open>string\<close>). Folding to lower case, which
  JavaScript's \<^verbatim>\<open>toLowerCase\<close> and SQL's \<^verbatim>\<open>LOWER\<close> each do in their own way on letters beyond
  ASCII, is not defined here: both functions are parameters of the environment.
\<close>

datatype jsval = JNull | JNumber real | JBigInt int

text \<open>
  \<^verbatim>\<open>Number\<close> of a BigInt is the double nearest to it, a tie going to the even significand:
  an integer of at most 53 bits is kept, a longer one is rounded to a multiple of
  \<open>2\<^sup>k\<close>, \<open>k\<close> being the number of bits beyond 53. (Only an integer of more than 1024 bits
  would give \<^verbatim>\<open>Infinity\<close>; the integer columns of the store have 32 and 64 bits.)
\<close>

fun bit_length :: "nat \<Rightarrow> nat" where
  "bit_length n = (if n = 0 then 0 else Suc (bit_length (n div 2)))"

declare bit_length.simps [simp del]

definition round_half_even :: "nat \<Rightarrow> nat \<Rightarrow> nat" where
  "round_half_even k m =
     (let d = 2 ^ k; qt = m div d; rm = m mod d
      in if 2 * rm < d then qt * d
         else if d < 2 * rm then (qt + 1) * d
         else (if even qt then qt else qt + 1) * d)"

definition Number_nat :: "nat \<Rightarrow> nat" where
  "Number_nat m = round_half_even (bit_length m - 53) m"

definition Number_bigint :: "int \<Rightarrow> int" where
  "Number_bigint n =
     (if n < 0 then - int (Number_nat (nat (- n))) else int (Number_nat (nat n)))"

text \<open>\<^verbatim>\<open>const num = (v) => (typeof v === 'bigint' ? Number(v) : v)\<close>.\<close>

fun num :: "jsval \<Rightarrow> jsval" where
  "num (JBigInt v) = JNumber (of_int (Number_bigint v))"
| "num v = v"

fun is_bigint :: "jsval \<Rightarrow> bool" where
  "is_bigint (JBigInt v) = True"
| "is_bigint v = False"

text \<open>\<^verbatim>\<open>typeof v === 'number'\<close>.\<close>

fun is_Number :: "jsval \<Rightarrow> bool" where
  "is_Number (JNumber x) = True"
| "is_Number v = False"

text \<open>\<^verbatim>\<open>v || d\<close> on a nullable string: \<^verbatim>\<open>null\<close> and the empty string are falsy.\<close>

definition or_default :: "string option \<Rightarrow> string \<Rightarrow> string" where
  "or_default v d = (case v of None \<Rightarrow> d | Some s \<Rightarrow> if s = [] then d else s)"

text \<open>
  The code throws plain \<^verbatim>\<open>Error\<close>s. The two constructors say where one comes from, in the
  words of the specification: the connection or the store (\<open>ConnectionError\<close>), or the
  statement and its parameters (\<open>QueryError\<close>).
\<close>

datatype error = ConnectionError string | QueryError string

section \<open>The catalog store and the SQL fragment the client uses\<close>

record bbox_struct =
  xmin :: real
  ymin :: real
  xmax :: real
  ymax :: real

text \<open>One row of \<^verbatim>\<open>catalog.parquet\<close>: the columns the client reads.\<close>

record catalog_record =
  col_id :: string
  col_title :: "string option"
  col_datetime :: int
  col_gsd :: "real option"
  col_platform_type :: "string option"
  col_producer_name :: "string option"
  col_license :: "string option"
  col_cog_href :: "string option"
  col_thumbnail_href :: "string option"
  col_file_size :: "int option"
  col_width :: "int option"
  col_height :: "int option"
  col_bands :: "int option"
  col_epsg :: "int option"
  col_uploaded_by :: "string option"
  col_uploaded_at :: "int option"
  col_bbox :: bbox_struct

datatype column =
  Bbox_xmin | Bbox_ymin | Bbox_xmax | Bbox_ymax | Datetime | Gsd | Platform_type | License | Title

datatype colexpr = Col column | Lower column

datatype sqlparam = PNum real | PStr string

datatype operand = Placeholder | Literal sqlparam

datatype sqlval = VNull | VDouble real | VTimestamp int | VVarchar string

datatype sqltype = TDouble | TTimestamp | TVarchar

text \<open>
  Conditions with operands of type \<^typ>\<open>operand\<close> are the statement text (a \<^verbatim>\<open>?\<close> or a
  quoted literal); with operands of type \<^typ>\<open>sqlval\<close> they are the bound statement.
\<close>

datatype 'p sqlexpr =
    Ge colexpr 'p
  | Le colexpr 'p
  | Eq colexpr 'p
  | Like colexpr 'p
  | And "'p sqlexpr" "'p sqlexpr"
  | Or "'p sqlexpr" "'p sqlexpr"

fun coltype :: "column \<Rightarrow> sqltype" where
  "coltype Datetime = TTimestamp"
| "coltype Platform_type = TVarchar"
| "coltype License = TVarchar"
| "coltype Title = TVarchar"
| "coltype c = TDouble"

fun opt_varchar :: "string option \<Rightarrow> sqlval" where
  "opt_varchar None = VNull"
| "opt_varchar (Some s) = VVarchar s"

fun col_value :: "catalog_record \<Rightarrow> column \<Rightarrow> sqlval" where
  "col_value r Bbox_xmin = VDouble (xmin (col_bbox r))"
| "col_value r Bbox_ymin = VDouble (ymin (col_bbox r))"
| "col_value r Bbox_xmax = VDouble (xmax (col_bbox r))"
| "col_value r Bbox_ymax = VDouble (ymax (col_bbox r))"
| "col_value r Datetime = VTimestamp (col_datetime r)"
| "col_value r Gsd = (case col_gsd r of None \<Rightarrow> VNull | Some g \<Rightarrow> VDouble g)"
| "col_value r Platform_type = opt_varchar (col_platform_type r)"
| "col_value r License = opt_varchar (col_license r)"
| "col_value r Title = opt_varchar (col_title r)"

text \<open>\<^verbatim>\<open>LOWER(c)\<close>, with the engine's folding of a string as the parameter \<open>lower\<close>.\<close>

fun sql_lower :: "(string \<Rightarrow> string) \<Rightarrow> sqlval \<Rightarrow> sqlval" where
  "sql_lower lower (VVarchar s) = VVarchar (lower s)"
| "sql_lower lower v = v"

fun colexpr_value :: "(string \<Rightarrow> string) \<Rightarrow> catalog_record \<Rightarrow> colexpr \<Rightarrow> sqlval" where
  "colexpr_value lower r (Col c) = col_value r c"
| "colexpr_value lower r (Lower c) = sql_lower lower (col_value r c)"

fun colexpr_type :: "colexpr \<Rightarrow> sqltype" where
  "colexpr_type (Col c) = coltype c"
| "colexpr_type (Lower c) = coltype c"

text \<open>
  SQL \<^verbatim>\<open>LIKE\<close> without an escape character: \<^verbatim>\<open>%\<close> matches any run of characters,
  \<^verbatim>\<open>_\<close> any single character, everything else itself.
\<close>

fun like_match :: "string \<Rightarrow> string \<Rightarrow> bool" where
  "like_match [] s = (s = [])"
| "like_match (p # ps) [] = (p = CHR ''%'' \<and> like_match ps [])"
| "like_match (p # ps) (c # cs) =
     (if p = CHR ''%'' then like_match ps (c # cs) \<or> like_match (p # ps) cs
      else if p = CHR ''_'' then like_match ps cs
      else p = c \<and> like_match ps cs)"

text \<open>Three-valued comparisons: \<^term>\<open>None\<close> is SQL's NULL (unknown).\<close>

fun sql_ge :: "sqlval \<Rightarrow> sqlval \<Rightarrow> bool option" where
  "sql_ge (VDouble a) (VDouble b) = Some (a \<ge> b)"
| "sql_ge (VTimestamp a) (VTimestamp b) = Some (a \<ge> b)"
| "sql_ge a b = None"

fun sql_le :: "sqlval \<Rightarrow> sqlval \<Rightarrow> bool option" where
  "sql_le (VDouble a) (VDouble b) = Some (a \<le> b)"
| "sql_le (VTimestamp a) (VTimestamp b) = Some (a \<le> b)"
| "sql_le a b = None"

fun sql_eq :: "sqlval \<Rightarrow> sqlval \<Rightarrow> bool option" where
  "sql_eq (VDouble a) (VDouble b) = Some (a = b)"
| "sql_eq (VTimestamp a) (VTimestamp b) = Some (a = b)"
| "sql_eq (VVarchar a) (VVarchar b) = Some (a = b)"
| "sql_eq a b = None"

fun sql_like :: "sqlval \<Rightarrow> sqlval \<Rightarrow> bool option" where
  "sql_like (VVarchar s) (VVarchar p) = Some (like_match p s)"
| "sql_like a b = None"

fun sql_and :: "bool option \<Rightarrow> bool option \<Rightarrow> bool option" where
  "sql_and (Some False) b = Some False"
| "sql_and a (Some False) = Some False"
| "sql_and (Some True) (Some True) = Some True"
| "sql_and a b = None"

fun sql_or :: "bool option \<Rightarrow> bool option \<Rightarrow> bool option" where
  "sql_or (Some True) b = Some True"
| "sql_or a (Some True) = Some True"
| "sql_or (Some False) (Some False) = Some False"
| "sql_or a b = None"

fun eval :: "(string \<Rightarrow> string) \<Rightarrow> sqlval sqlexpr \<Rightarrow> catalog_record \<Rightarrow> bool option" where
  "eval lower (Ge c v) r = sql_ge (colexpr_value lower r c) v"
| "eval lower (Le c v) r = sql_le (colexpr_value lower r c) v"
| "eval lower (Eq c v) r = sql_eq (colexpr_value lower r c) v"
| "eval lower (Like c v) r = sql_like (colexpr_value lower r c) v"
| "eval lower (And a b) r = sql_and (eval lower a r) (eval lower b r)"
| "eval lower (Or a b) r = sql_or (eval lower a r) (eval lower b r)"

text \<open>
  Binding a JavaScript value to an operand of a column's type. The cast of a string to a
  timestamp is the engine's; it is the parameter \<open>cast\<close> (\<^term>\<open>None\<close>: not a timestamp).
  A value of the wrong kind for the column is rejected.
\<close>

fun coerce :: "(string \<Rightarrow> int option) \<Rightarrow> sqltype \<Rightarrow> sqlparam \<Rightarrow> sqlval option" where
  "coerce cast TDouble (PNum x) = Some (VDouble x)"
| "coerce cast TTimestamp (PStr s) = map_option VTimestamp (cast s)"
| "coerce cast TVarchar (PStr s) = Some (VVarchar s)"
| "coerce cast t p = None"

text \<open>An operand takes the next positional parameter if it is a placeholder.\<close>

fun bind_operand ::
  "(string \<Rightarrow> int option) \<Rightarrow> sqltype \<Rightarrow> operand \<Rightarrow> sqlparam list \<Rightarrow> (sqlval \<times> sqlparam list) option" where
  "bind_operand cast t (Literal p) ps = map_option (\<lambda>v. (v, ps)) (coerce cast t p)"
| "bind_operand cast t Placeholder [] = None"
| "bind_operand cast t Placeholder (p # ps) = map_option (\<lambda>v. (v, ps)) (coerce cast t p)"

fun bind ::
  "(string \<Rightarrow> int option) \<Rightarrow> operand sqlexpr \<Rightarrow> sqlparam list \<Rightarrow> (sqlval sqlexpr \<times> sqlparam list) option" where
  "bind cast (Ge c x) ps = map_option (\<lambda>(v, ps'). (Ge c v, ps')) (bind_operand cast (colexpr_type c) x ps)"
| "bind cast (Le c x) ps = map_option (\<lambda>(v, ps'). (Le c v, ps')) (bind_operand cast (colexpr_type c) x ps)"
| "bind cast (Eq c x) ps = map_option (\<lambda>(v, ps'). (Eq c v, ps')) (bind_operand cast (colexpr_type c) x ps)"
| "bind cast (Like c x) ps = map_option (\<lambda>(v, ps'). (Like c v, ps')) (bind_operand cast (colexpr_type c) x ps)"
| "bind cast (And a b) ps =
     (case bind cast a ps of None \<Rightarrow> None
      | Some (a', ps') \<Rightarrow>
          (case bind cast b ps' of None \<Rightarrow> None
           | Some (b', ps'') \<Rightarrow> Some (And a' b', ps'')))"
| "bind cast (Or a b) ps =
     (case bind cast a ps of None \<Rightarrow> None
      | Some (a', ps') \<Rightarrow>
          (case bind cast b ps' of None \<Rightarrow> None
           | Some (b', ps'') \<Rightarrow> Some (Or a' b', ps'')))"

section \<open>Rows returned to JavaScript and the GeoJSON features built from them\<close>

text \<open>
  The \<^verbatim>\<open>SELECT\<close> list of \<^verbatim>\<open>searchCatalog\<close>, as the object \<^verbatim>\<open>row.toJSON()\<close> gives:
  integer columns arrive as BigInt (or \<^verbatim>\<open>null\<close>), and the four covering columns are renamed
  \<^verbatim>\<open>bbox.xmin as bbox_west\<close>, \<^verbatim>\<open>bbox.ymin as bbox_south\<close>, \<^verbatim>\<open>bbox.xmax as bbox_east\<close>,
  \<^verbatim>\<open>bbox.ymax as bbox_north\<close>.
\<close>

record result_row =
  row_id :: string
  row_title :: "string option"
  row_datetime :: int
  row_gsd :: "real option"
  row_platform_type :: "string option"
  row_producer_name :: "string option"
  row_license :: "string option"
  row_cog_href :: "string option"
  row_thumbnail_href :: "string option"
  row_file_size :: jsval
  row_width :: jsval
  row_height :: jsval
  row_bands :: jsval
  row_epsg :: jsval
  row_uploaded_by :: "string option"
  row_uploaded_at :: "int option"
  row_bbox_west :: real
  row_bbox_south :: real
  row_bbox_east :: real
  row_bbox_north :: real

fun arrow_int :: "int option \<Rightarrow> jsval" where
  "arrow_int None = JNull"
| "arrow_int (Some n) = JBigInt n"

definition select_row :: "catalog_record \<Rightarrow> result_row" where
  "select_row r =
     \<lparr> row_id = col_id r,
       row_title = col_title r,
       row_datetime = col_datetime r,
       row_gsd = col_gsd r,
       row_platform_type = col_platform_type r,
       row_producer_name = col_producer_name r,
       row_license = col_license r,
       row_cog_href = col_cog_href r,
       row_thumbnail_href = col_thumbnail_href r,
       row_file_size = arrow_int (col_file_size r),
       row_width = arrow_int (col_width r),
       row_height = arrow_int (col_height r),
       row_bands = arrow_int (col_bands r),
       row_epsg = arrow_int (col_epsg r),
       row_uploaded_by = col_uploaded_by r,
       row_uploaded_at = col_uploaded_at r,
       row_bbox_west = xmin (col_bbox r),
       row_bbox_south = ymin (col_bbox r),
       row_bbox_east = xmax (col_bbox r),
       row_bbox_north = ymax (col_bbox r) \<rparr>"

record geojson_geometry =
  geometry_type :: string
  coordinates :: "(real \<times> real) list list"

record feature_properties =
  prop_id :: string
  prop_title :: string
  prop_datetime :: int
  prop_date :: int
  prop_gsd :: "real option"
  prop_platform :: string
  prop_platform_type :: "string option"
  prop_producer_name :: string
  prop_provider :: string
  prop_license :: string
  prop_cog_href :: "string option"
  prop_thumbnail :: "string option"
  prop_thumbnail_href :: "string option"
  prop_file_size :: jsval
  prop_width :: jsval
  prop_height :: jsval
  prop_bands :: jsval
  prop_epsg :: jsval
  prop_uploaded_by :: "string option"
  prop_uploaded_at :: "int option"

record feature =
  feature_type :: string
  geometry :: geojson_geometry
  properties :: feature_properties

text \<open>The body of \<^verbatim>\<open>rows.map(row => ({ type: 'Feature', ... }))\<close>.\<close>

definition toFeature :: "result_row \<Rightarrow> feature" where
  "toFeature row =
     \<lparr> feature_type = ''Feature'',
       geometry =
         \<lparr> geometry_type = ''Polygon'',
           coordinates =
             [[ (row_bbox_west row, row_bbox_south row),
                (row_bbox_east row, row_bbox_south row),
                (row_bbox_east row, row_bbox_north row),
                (row_bbox_west row, row_bbox_north row),
                (row_bbox_west row, row_bbox_south row) ]] \<rparr>,
       properties =
         \<lparr> prop_id = row_id row,
           prop_title = or_default (row_title row) ''Untitled Image'',
           prop_datetime = row_datetime row,
           prop_date = row_datetime row,
           prop_gsd = row_gsd row,
           prop_platform = or_default (row_platform_type row) ''unknown'',
           prop_platform_type = row_platform_type row,
           prop_producer_name = or_default (row_producer_name row) ''Unknown'',
           prop_provider = or_default (row_producer_name row) ''Unknown'',
           prop_license = or_default (row_license row) ''Unknown'',
           prop_cog_href = row_cog_href row,
           prop_thumbnail = row_thumbnail_href row,
           prop_thumbnail_href = row_thumbnail_href row,
           prop_file_size = num (row_file_size row),
           prop_width = num (row_width row),
           prop_height = num (row_height row),
           prop_bands = num (row_bands row),
           prop_epsg = num (row_epsg row),
           prop_uploaded_by = row_uploaded_by row,
           prop_uploaded_at = row_uploaded_at row \<rparr> \<rparr>"

section \<open>The environment: the JavaScript runtime, DuckDB-WASM and the remote Parquet file\<close>

text \<open>
  What the code cannot decide is a field of the environment: whether each step of the
  DuckDB set-up fails (with which message), whether \<^verbatim>\<open>read_parquet\<close> can read the catalog
  (\<^term>\<open>None\<close>: it cannot, e.g. the file does not exist yet) and which rows it holds in scan
  order, the engine's cast of a string to a timestamp, and the two foldings to lower case:
  \<^verbatim>\<open>String.prototype.toLowerCase\<close> of the JavaScript runtime and \<^verbatim>\<open>LOWER\<close> of the engine.
\<close>

record world =
  selectBundle_fails :: "string option"
  instantiate_fails :: "string option"
  connect_fails :: "string option"
  set_cache_fails :: "string option"
  parquet :: "catalog_record list option"
  cast_timestamp :: "string \<Rightarrow> int option"
  toLowerCase :: "string \<Rightarrow> string"
  sql_LOWER :: "string \<Rightarrow> string"

text \<open>
  \<^verbatim>\<open>ORDER BY datetime DESC\<close>: the only sort key the statement gives the engine is
  \<^verbatim>\<open>datetime\<close>; rows with equal keys stay in scan order (a stable insertion sort).
\<close>

definition order_by_datetime_desc :: "catalog_record list \<Rightarrow> catalog_record list" where
  "order_by_datetime_desc rs = sort_key (\<lambda>r. - col_datetime r) rs"

text \<open>
  \<^verbatim>\<open>SELECT ... FROM read_parquet(url) [WHERE e] ORDER BY datetime DESC LIMIT n\<close> with
  positional parameters: preparing the statement needs the file, executing it binds every
  placeholder (all parameters must be used), keeps the rows on which the condition is
  true, sorts, truncates and projects.
\<close>

definition run_select ::
  "world \<Rightarrow> operand sqlexpr option \<Rightarrow> sqlparam list \<Rightarrow> nat \<Rightarrow> error + result_row list" where
  "run_select w wh ps n =
     (case parquet w of
        None \<Rightarrow> Inl (ConnectionError ''read_parquet failed'')
      | Some store \<Rightarrow>
          (case wh of
             None \<Rightarrow>
               (case ps of
                  [] \<Rightarrow> Inr (map select_row (take n (order_by_datetime_desc store)))
                | p # ps' \<Rightarrow> Inl (QueryError ''parameter count''))
           | Some e \<Rightarrow>
               (case bind (cast_timestamp w) e ps of
                  Some (e', []) \<Rightarrow>
                    Inr (map select_row (take n (order_by_datetime_desc
                          (filter (\<lambda>r. eval (sql_LOWER w) e' r = Some True) store))))
                | Some (e', p # ps') \<Rightarrow> Inl (QueryError ''parameter count'')
                | None \<Rightarrow> Inl (QueryError ''bind failed''))))"

section \<open>Module state of \<^verbatim>\<open>lib/catalog.js\<close> and \<^verbatim>\<open>initCatalog\<close>\<close>

text \<open>
  \<^verbatim>\<open>let db = null; let conn = null; let initPromise = null;\<close>
  Promises are objects with identity: \<open>promises\<close> is the heap of the promises created by
  the set-up closure (one per started set-up), and \<open>initPromise\<close>, \<open>db\<close>, \<open>conn\<close> hold the
  index of the set-up that made them.
\<close>

datatype promise = Pending | Fulfilled | Rejected error

record module_state =
  db :: "nat option"
  conn :: "nat option"
  initPromise :: "nat option"
  promises :: "promise list"

definition initial_module :: module_state where
  "initial_module = \<lparr> db = None, conn = None, initPromise = None, promises = [] \<rparr>"

definition promise_at :: "module_state \<Rightarrow> nat \<Rightarrow> promise" where
  "promise_at s p = (if p < length (promises s) then promises s ! p else Pending)"

definition settle :: "nat \<Rightarrow> promise \<Rightarrow> module_state \<Rightarrow> module_state" where
  "settle p v s = (if promise_at s p = Pending then s\<lparr> promises := (promises s)[p := v] \<rparr> else s)"

text \<open>
  The synchronous part of a call: \<^verbatim>\<open>if (initPromise) return initPromise;\<close> otherwise the
  closure is started (it runs up to its first \<^verbatim>\<open>await\<close>) and its promise is stored.
  The result is the promise the caller waits for.
\<close>

definition initCatalog :: "module_state \<Rightarrow> nat \<times> module_state" where
  "initCatalog s =
     (case initPromise s of
        Some p \<Rightarrow> (p, s)
      | None \<Rightarrow>
          (let p = length (promises s)
           in (p, s\<lparr> promises := promises s @ [Pending], initPromise := Some p \<rparr>)))"

text \<open>
  The rest of the set-up closure \<open>p\<close>, run to its end: \<^verbatim>\<open>selectBundle\<close>, \<^verbatim>\<open>db = new AsyncDuckDB\<close>,
  \<^verbatim>\<open>db.instantiate\<close>, \<^verbatim>\<open>conn = await db.connect()\<close>, and the \<^verbatim>\<open>SET\<close> statement whose
  failure the \<^verbatim>\<open>try/catch\<close> swallows.
\<close>

definition setup_body :: "world \<Rightarrow> nat \<Rightarrow> module_state \<Rightarrow> module_state" where
  "setup_body w p s =
     (case selectBundle_fails w of
        Some m \<Rightarrow> settle p (Rejected (ConnectionError m)) s
      | None \<Rightarrow>
          (let s1 = s\<lparr> db := Some p \<rparr>
           in case instantiate_fails w of
                Some m \<Rightarrow> settle p (Rejected (ConnectionError m)) s1
              | None \<Rightarrow>
                  (case connect_fails w of
                     Some m \<Rightarrow> settle p (Rejected (ConnectionError m)) s1
                   | None \<Rightarrow>
                       (let s2 = s1\<lparr> conn := Some p \<rparr>
                        in case set_cache_fails w of
                             Some m \<Rightarrow> settle p Fulfilled s2
                           | None \<Rightarrow> settle p Fulfilled s2))))"

text \<open>\<^verbatim>\<open>await initCatalog()\<close> seen from one caller: the promise it got, once settled.\<close>

definition await_initCatalog :: "world \<Rightarrow> module_state \<Rightarrow> (error + unit) \<times> module_state" where
  "await_initCatalog w s =
     (let (p, s1) = initCatalog s;
          s2 = (if promise_at s1 p = Pending then setup_body w p s1 else s1)
      in case promise_at s2 p of
           Rejected e \<Rightarrow> (Inl e, s2)
         | Fulfilled \<Rightarrow> (Inr (), s2)
         | Pending \<Rightarrow> (Inr (), s2))"

text \<open>
  (The last case does not arise: a pending set-up has just been run to its end, and
  \<^const>\<open>setup_body\<close> settles its promise.)
\<close>

text \<open>\<^verbatim>\<open>if (!conn) await initCatalog();\<close>\<close>

definition ensure_conn :: "world \<Rightarrow> module_state \<Rightarrow> (error + unit) \<times> module_state" where
  "ensure_conn w s = (if conn s = None then await_initCatalog w s else (Inr (), s))"

text \<open>
  Callers of \<^verbatim>\<open>initCatalog\<close> interleave only at \<^verbatim>\<open>await\<close>s: a call runs its synchronous
  part atomically, and a started set-up finishes at some later point, in whatever
  environment it then meets (its steps between \<^verbatim>\<open>await\<close>s assign \<open>db\<close> and \<open>conn\<close> only, so
  they are taken together). \<open>returned\<close> records which promise each caller was handed.
\<close>

datatype init_event = Call nat | SetupRuns nat world

record init_sys =
  mstate :: module_state
  returned :: "(nat \<times> nat) list"

definition initial_sys :: init_sys where
  "initial_sys = \<lparr> mstate = initial_module, returned = [] \<rparr>"

fun init_step :: "init_sys \<Rightarrow> init_event \<Rightarrow> init_sys" where
  "init_step s (Call c) =
     (let (p, m) = initCatalog (mstate s)
      in s\<lparr> mstate := m, returned := returned s @ [(c, p)] \<rparr>)"
| "init_step s (SetupRuns p w) =
     (if p < length (promises (mstate s)) \<and> promise_at (mstate s) p = Pending
      then s\<lparr> mstate := setup_body w p (mstate s) \<rparr>
      else s)"

definition run_init :: "init_event list \<Rightarrow> init_sys" where
  "run_init es = foldl init_step initial_sys es"

text \<open>What caller \<open>c\<close> sees when it awaits the promise it was handed.\<close>

definition observed :: "init_sys \<Rightarrow> nat \<Rightarrow> promise option" where
  "observed s c = map_option (promise_at (mstate s)) (map_of (returned s) c)"

section \<open>\<^verbatim>\<open>searchCatalog\<close>\<close>

text \<open>
  The destructured argument with its defaults. \<open>bbox\<close> is
  \<^verbatim>\<open>[west, south, east, north]\<close> or \<^verbatim>\<open>null\<close>; \<open>maxGsd\<close> a number or \<^verbatim>\<open>null\<close>; \<open>limit\<close> a
  natural number, as \<^verbatim>\<open>LIMIT\<close> needs.
\<close>

record search_params =
  bbox :: "(real \<times> real \<times> real \<times> real) option"
  dateStart :: string
  dateEnd :: string
  platform :: string
  license :: string
  maxGsd :: "real option"
  query :: string
  limit :: nat

definition default_params :: search_params where
  "default_params =
     \<lparr> bbox = None, dateStart = [], dateEnd = [], platform = [], license = [],
       maxGsd = None, query = [], limit = 200 \<rparr>"

text \<open>
  The two arrays \<^verbatim>\<open>conditions\<close> and \<^verbatim>\<open>params\<close>, and one function per \<^verbatim>\<open>if\<close> block; \<open>toLower\<close>
  is the runtime's \<^verbatim>\<open>toLowerCase\<close>.
\<close>

type_synonym clauses = "operand sqlexpr list \<times> sqlparam list"

definition push_bbox :: "search_params \<Rightarrow> clauses \<Rightarrow> clauses" where
  "push_bbox q cp =
     (case bbox q of
        None \<Rightarrow> cp
      | Some (west, south, east, north) \<Rightarrow>
          (fst cp @ [And (And (And (Ge (Col Bbox_xmax) Placeholder) (Le (Col Bbox_xmin) Placeholder))
                               (Ge (Col Bbox_ymax) Placeholder))
                          (Le (Col Bbox_ymin) Placeholder)],
           snd cp @ [PNum west, PNum east, PNum south, PNum north]))"

definition push_dateStart :: "search_params \<Rightarrow> clauses \<Rightarrow> clauses" where
  "push_dateStart q cp =
     (if dateStart q \<noteq> [] then
        (fst cp @ [Ge (Col Datetime) Placeholder], snd cp @ [PStr (dateStart q)])
      else cp)"

definition push_dateEnd :: "search_params \<Rightarrow> clauses \<Rightarrow> clauses" where
  "push_dateEnd q cp =
     (if dateEnd q \<noteq> [] then
        (fst cp @ [Le (Col Datetime) Placeholder], snd cp @ [PStr (dateEnd q @ ''T23:59:59.999Z'')])
      else cp)"

definition push_platform :: "(string \<Rightarrow> string) \<Rightarrow> search_params \<Rightarrow> clauses \<Rightarrow> clauses" where
  "push_platform toLower q cp =
     (if platform q \<noteq> [] then
        (if platform q = ''uav'' then
           (fst cp @ [Or (Eq (Lower Platform_type) (Literal (PStr ''uav'')))
                         (Eq (Lower Platform_type) (Literal (PStr ''drone'')))],
            snd cp)
         else
           (fst cp @ [Eq (Lower Platform_type) Placeholder],
            snd cp @ [PStr (toLower (platform q))]))
      else cp)"

definition push_license :: "(string \<Rightarrow> string) \<Rightarrow> search_params \<Rightarrow> clauses \<Rightarrow> clauses" where
  "push_license toLower q cp =
     (if license q \<noteq> [] then
        (fst cp @ [Like (Lower License) Placeholder],
         snd cp @ [PStr (''%'' @ toLower (license q) @ ''%'')])
      else cp)"

text \<open>\<^verbatim>\<open>if (maxGsd)\<close>: \<^verbatim>\<open>null\<close> and \<^verbatim>\<open>0\<close> are falsy.\<close>

definition push_maxGsd :: "search_params \<Rightarrow> clauses \<Rightarrow> clauses" where
  "push_maxGsd q cp =
     (case maxGsd q of
        None \<Rightarrow> cp
      | Some g \<Rightarrow>
          (if g \<noteq> 0 then (fst cp @ [Le (Col Gsd) Placeholder], snd cp @ [PNum g]) else cp))"

definition push_query :: "(string \<Rightarrow> string) \<Rightarrow> search_params \<Rightarrow> clauses \<Rightarrow> clauses" where
  "push_query toLower q cp =
     (if query q \<noteq> [] then
        (fst cp @ [Like (Lower Title) Placeholder],
         snd cp @ [PStr (''%'' @ toLower (query q) @ ''%'')])
      else cp)"

definition build_clauses :: "(string \<Rightarrow> string) \<Rightarrow> search_params \<Rightarrow> clauses" where
  "build_clauses toLower q =
     push_query toLower q (push_maxGsd q (push_license toLower q (push_platform toLower q
       (push_dateEnd q (push_dateStart q (push_bbox q ([], [])))))))"

text \<open>
  \<^verbatim>\<open>conditions.length > 0 ? `WHERE ${conditions.join(' AND ')}` : ''\<close>: the conditions
  joined by \<^verbatim>\<open>AND\<close>, which SQL reads left-associatively.
\<close>

definition where_clause :: "operand sqlexpr list \<Rightarrow> operand sqlexpr option" where
  "where_clause conditions =
     (case conditions of [] \<Rightarrow> None | c # cs \<Rightarrow> Some (foldl And c cs))"

definition searchCatalog ::
  "world \<Rightarrow> module_state \<Rightarrow> search_params \<Rightarrow> (error + feature list) \<times> module_state" where
  "searchCatalog w s q =
     (case ensure_conn w s of
        (Inl e, s') \<Rightarrow> (Inl e, s')
      | (Inr u, s') \<Rightarrow>
          (case conn s' of
             None \<Rightarrow> (Inl (QueryError ''conn is null''), s')
           | Some c \<Rightarrow>
               (let (conditions, params) = build_clauses (toLowerCase w) q
                in case run_select w (where_clause conditions) params (limit q) of
                     Inl e \<Rightarrow> (Inl e, s')
                   | Inr rows \<Rightarrow> (Inr (map toFeature rows), s'))))"

section \<open>\<^verbatim>\<open>getCatalogStats\<close>\<close>

record stats_row =
  total_images :: int
  earliest_col :: "int option"
  latest_col :: "int option"
  platform_count :: int
  total_size_bytes :: "int option"

record catalog_stats =
  totalImages :: int
  earliest :: "int option"
  latest :: "int option"
  platformCount :: int
  totalSizeBytes :: int

text \<open>
  \<^verbatim>\<open>COUNT(*)\<close>, \<^verbatim>\<open>MIN(datetime)\<close>, \<^verbatim>\<open>MAX(datetime)\<close>, \<^verbatim>\<open>COUNT(DISTINCT platform_type)\<close>,
  \<^verbatim>\<open>SUM(file_size)\<close>: aggregates skip NULLs, and \<^verbatim>\<open>MIN\<close>, \<^verbatim>\<open>MAX\<close>, \<^verbatim>\<open>SUM\<close> of no value
  are NULL.
\<close>

fun fold1 :: "(int \<Rightarrow> int \<Rightarrow> int) \<Rightarrow> int list \<Rightarrow> int option" where
  "fold1 f [] = None"
| "fold1 f (x # xs) = Some (fold f xs x)"

definition aggregate :: "catalog_record list \<Rightarrow> stats_row" where
  "aggregate store =
     \<lparr> total_images = int (length store),
       earliest_col = fold1 min (map col_datetime store),
       latest_col = fold1 max (map col_datetime store),
       platform_count = int (length (remdups (List.map_filter col_platform_type store))),
       total_size_bytes = fold1 (+) (List.map_filter col_file_size store) \<rparr>"

definition stats_query :: "world \<Rightarrow> error + stats_row list" where
  "stats_query w =
     (case parquet w of
        None \<Rightarrow> Inl (ConnectionError ''read_parquet failed'')
      | Some store \<Rightarrow> Inr [aggregate store])"

definition zero_stats :: catalog_stats where
  "zero_stats =
     \<lparr> totalImages = 0, earliest = None, latest = None, platformCount = 0, totalSizeBytes = 0 \<rparr>"

text \<open>
  \<^verbatim>\<open>Number(row.total_size_bytes)\<close>. \<^verbatim>\<open>Number(null)\<close> is \<^verbatim>\<open>0\<close>. The sum of a 64-bit column is a
  128-bit integer, which the Arrow library hands over as an object of its own; \<^verbatim>\<open>Number\<close> of
  it calls the library's conversion, which throws a \<^verbatim>\<open>TypeError\<close> for an integer outside the
  safe integers.
\<close>

definition MAX_SAFE_INTEGER :: int where
  "MAX_SAFE_INTEGER = 2 ^ 53 - 1"

fun Number_sum :: "int option \<Rightarrow> error + int" where
  "Number_sum None = Inr 0"
| "Number_sum (Some n) =
     (if \<bar>n\<bar> \<le> MAX_SAFE_INTEGER then Inr n
      else Inl (QueryError ''not safe to convert to a number''))"

text \<open>
  The connection check stands before the \<^verbatim>\<open>try\<close>; the \<^verbatim>\<open>catch\<close> covers the query
  (also a call on a \<^verbatim>\<open>null\<close> connection) and the conversion of its first row. The two
  counts are 64-bit integers and arrive as BigInts.
\<close>

definition getCatalogStats ::
  "world \<Rightarrow> module_state \<Rightarrow> (error + catalog_stats) \<times> module_state" where
  "getCatalogStats w s =
     (case ensure_conn w s of
        (Inl e, s') \<Rightarrow> (Inl e, s')
      | (Inr u, s') \<Rightarrow>
          (case conn s' of
             None \<Rightarrow> (Inr zero_stats, s')
           | Some c \<Rightarrow>
               (case stats_query w of
                  Inl e \<Rightarrow> (Inr zero_stats, s')
                | Inr [] \<Rightarrow> (Inr zero_stats, s')
                | Inr (row # rest) \<Rightarrow>
                    (case Number_sum (total_size_bytes row) of
                       Inl e \<Rightarrow> (Inr zero_stats, s')
                     | Inr bytes \<Rightarrow>
                         (Inr \<lparr> totalImages = Number_bigint (total_images row),
                                earliest = earliest_col row,
                                latest = latest_col row,
                                platformCount = Number_bigint (platform_count row),
                                totalSizeBytes = bytes \<rparr>, s')))))"

section \<open>\<^verbatim>\<open>App\<close>: running searches from the map viewport\<close>

type_synonym bbox4 = "real \<times> real \<times> real \<times> real"

record filter_state =
  flt_dateStart :: string
  flt_dateEnd :: string
  flt_platform :: string
  flt_license :: string

text \<open>
  What the functions created by one render of \<^verbatim>\<open>App\<close> see: the \<^verbatim>\<open>catalogReady\<close> inside that
  render's \<^verbatim>\<open>runSearch\<close> (a \<^verbatim>\<open>useCallback\<close> on \<^verbatim>\<open>[catalogReady]\<close>), its \<^verbatim>\<open>viewportBbox\<close> and
  its \<^verbatim>\<open>filters\<close>.
\<close>

type_synonym closure = "bool \<times> bbox4 option \<times> filter_state"

text \<open>
  The React state \<^verbatim>\<open>App\<close> keeps for searching; the pending debounce timer, with the closure
  of the render whose effect set it; the closure of the \<^verbatim>\<open>onUploadComplete\<close> that a running
  upload will call (\<^verbatim>\<open>handleUpload\<close> calls the \<^verbatim>\<open>pollStatus\<close> of the render in which it was
  invoked, and that \<^verbatim>\<open>pollStatus\<close> holds the \<^verbatim>\<open>onUploadComplete\<close> of the same render); and
  the searches that are waiting at \<^verbatim>\<open>await searchCatalog(...)\<close>. The code gives a search no
  number; \<open>issued\<close> and the numbers in \<open>inflight\<close> only name the searches in the order
  \<^verbatim>\<open>runSearch\<close> started them.
\<close>

record app_state =
  features :: "feature list"
  isSearching :: bool
  catalogReady :: bool
  viewportBbox :: "bbox4 option"
  filters :: filter_state
  searchDebounce :: "closure option"
  uploadClosure :: "closure option"
  inflight :: "(nat \<times> search_params) list"
  issued :: nat

definition initial_app :: "filter_state \<Rightarrow> app_state" where
  "initial_app flt =
     \<lparr> features = [], isSearching = False, catalogReady = False, viewportBbox = None,
       filters = flt, searchDebounce = None, uploadClosure = None, inflight = [], issued = 0 \<rparr>"

definition render_closure :: "app_state \<Rightarrow> closure" where
  "render_closure st = (catalogReady st, viewportBbox st, filters st)"

text \<open>The argument \<^verbatim>\<open>runSearch\<close> passes to \<^verbatim>\<open>searchCatalog\<close>; the rest are defaults.\<close>

definition search_request :: "bbox4 \<Rightarrow> filter_state \<Rightarrow> search_params" where
  "search_request b flt =
     default_params\<lparr> bbox := Some b, dateStart := flt_dateStart flt, dateEnd := flt_dateEnd flt,
                     platform := flt_platform flt, license := flt_license flt \<rparr>"

text \<open>
  \<^verbatim>\<open>runSearch\<close> up to its \<^verbatim>\<open>await\<close>, with the \<^verbatim>\<open>catalogReady\<close> of its closure as \<open>ready\<close>:
  \<^verbatim>\<open>if (!catalogReady || !bbox) return; setIsSearching(true);\<close> and the call is in flight.
\<close>

definition runSearch :: "bool \<Rightarrow> bbox4 option \<Rightarrow> filter_state \<Rightarrow> app_state \<Rightarrow> app_state" where
  "runSearch ready b flt st =
     (case b of
        None \<Rightarrow> st
      | Some bb \<Rightarrow>
          (if \<not> ready then st
           else st\<lparr> isSearching := True,
                    inflight := inflight st @ [(issued st, search_request bb flt)],
                    issued := issued st + 1 \<rparr>))"

text \<open>
  \<^verbatim>\<open>runSearch\<close> after its \<^verbatim>\<open>await\<close>, for the search numbered \<open>i\<close>:
  \<^verbatim>\<open>setFeatures(results)\<close>, or the \<^verbatim>\<open>catch\<close> that only logs; then \<^verbatim>\<open>setIsSearching(false)\<close>.
\<close>

definition runSearch_resume :: "nat \<Rightarrow> error + feature list \<Rightarrow> app_state \<Rightarrow> app_state" where
  "runSearch_resume i outcome st =
     (if i \<in> fst ` set (inflight st) then
        (let st1 = (case outcome of Inr results \<Rightarrow> st\<lparr> features := results \<rparr> | Inl err \<Rightarrow> st)
         in st1\<lparr> isSearching := False, inflight := filter (\<lambda>(j, q). j \<noteq> i) (inflight st1) \<rparr>)
      else st)"

text \<open>
  The effect on \<^verbatim>\<open>[viewportBbox, filters, runSearch]\<close>, run after a render that changed one
  of them: the clean-up of the previous run clears the pending timer, then a new 300 ms
  timer is set, with the closure of this render, unless there is no viewport.
\<close>

definition search_effect :: "app_state \<Rightarrow> app_state" where
  "search_effect st =
     (case viewportBbox st of
        None \<Rightarrow> st\<lparr> searchDebounce := None \<rparr>
      | Some b \<Rightarrow> st\<lparr> searchDebounce := Some (render_closure st) \<rparr>)"

text \<open>
  \<^verbatim>\<open>onUploadComplete\<close> of a render:
  \<^verbatim>\<open>() => { if (viewportBbox) runSearch(viewportBbox, filters); }\<close>.
\<close>

fun onUploadComplete :: "closure \<Rightarrow> app_state \<Rightarrow> app_state" where
  "onUploadComplete (ready, b, flt) st =
     (case b of None \<Rightarrow> st | Some bb \<Rightarrow> runSearch ready (Some bb) flt st)"

text \<open>
  The events: the catalog is initialised, the map reports a new viewport, the filter bar a
  new filter, the debounce timer fires, the user starts an upload, the polling of that
  upload reads \<^verbatim>\<open>complete\<close>, and a search that is in flight settles.
\<close>

datatype app_event =
    CatalogInitialised
  | MapMoved bbox4
  | FilterChanged filter_state
  | DebounceFires
  | UploadStarted
  | UploadCompleted
  | SearchSettles nat "error + feature list"

fun app_step :: "app_state \<Rightarrow> app_event \<Rightarrow> app_state" where
  "app_step st CatalogInitialised = search_effect (st\<lparr> catalogReady := True \<rparr>)"
| "app_step st (MapMoved b) = search_effect (st\<lparr> viewportBbox := Some b \<rparr>)"
| "app_step st (FilterChanged flt) = search_effect (st\<lparr> filters := flt \<rparr>)"
| "app_step st DebounceFires =
     (case searchDebounce st of
        None \<Rightarrow> st
      | Some (ready, b, flt) \<Rightarrow> runSearch ready b flt (st\<lparr> searchDebounce := None \<rparr>))"
| "app_step st UploadStarted = st\<lparr> uploadClosure := Some (render_closure st) \<rparr>"
| "app_step st UploadCompleted =
     (case uploadClosure st of None \<Rightarrow> st | Some c \<Rightarrow> onUploadComplete c st)"
| "app_step st (SearchSettles i outcome) = runSearch_resume i outcome st"

definition app_run :: "app_state \<Rightarrow> app_event list \<Rightarrow> app_state" where
  "app_run st es = foldl app_step st es"

section \<open>\<^verbatim>\<open>UploadModal\<close>: polling the status of an upload\<close>

datatype upload_status = Idle | Requesting | Uploading | Processing | Complete | Error

text \<open>The JSON document \<^verbatim>\<open>uploads/<id>/status.json\<close>.\<close>

record status_doc =
  doc_step :: "string option"
  doc_status :: string
  doc_error :: "string option"

text \<open>
  How one \<^verbatim>\<open>fetch\<close> of the status document ends: the request rejects, the response is
  not \<^verbatim>\<open>ok\<close>, its body is not JSON, or it carries a document.
\<close>

datatype fetch_result = FetchRejects | RespNotOk | JsonRejects | RespOk status_doc

text \<open>
  The state of the modal that polling touches. \<open>poll_active\<close> says whether the interval
  in \<^verbatim>\<open>pollRef\<close> is still set; \<open>fetches_sent\<close>, \<open>outstanding\<close> and \<open>completions\<close> count the
  requests sent, those not yet answered, and the calls of \<^verbatim>\<open>onUploadComplete\<close>.
\<close>

record upload_state =
  status :: upload_status
  processingStep :: "string option"
  error_msg :: string
  poll_url :: string
  poll_active :: bool
  pollCount :: nat
  fetches_sent :: nat
  outstanding :: nat
  completions :: nat

definition maxPolls :: nat where
  "maxPolls = 120"

text \<open>
  The message of the timeout. Its dash is the em dash U+2014, given here by the three bytes
  of its UTF-8 encoding.
\<close>

definition timeout_message :: string where
  "timeout_message =
     ''Processing timed out. The image may still be processing '' @
     [CHR 0xE2, CHR 0x80, CHR 0x94] @ '' check back later.''"

definition pollStatus :: "string \<Rightarrow> upload_state \<Rightarrow> upload_state" where
  "pollStatus ident st =
     st\<lparr> poll_url := ''https://cn-oam.s3.amazonaws.com/uploads/'' @ ident @ ''/status.json'',
         pollCount := 0, poll_active := True \<rparr>"

text \<open>One firing of the interval, up to the \<^verbatim>\<open>await fetch(...)\<close>.\<close>

definition poll_tick :: "upload_state \<Rightarrow> upload_state" where
  "poll_tick st =
     (if \<not> poll_active st then st
      else
        (let st1 = st\<lparr> pollCount := pollCount st + 1 \<rparr>
         in if pollCount st1 > maxPolls then
              st1\<lparr> poll_active := False, status := Error, error_msg := timeout_message \<rparr>
            else st1\<lparr> fetches_sent := fetches_sent st1 + 1, outstanding := outstanding st1 + 1 \<rparr>))"

text \<open>The callback after its \<^verbatim>\<open>await\<close>s, with the outcome of the request.\<close>

definition poll_response :: "fetch_result \<Rightarrow> upload_state \<Rightarrow> upload_state" where
  "poll_response r st =
     (if outstanding st = 0 then st
      else
        (let st1 = st\<lparr> outstanding := outstanding st - 1 \<rparr>
         in case r of
              RespOk data \<Rightarrow>
                (let st2 = (case doc_step data of
                              None \<Rightarrow> st1
                            | Some step \<Rightarrow> if step = [] then st1 else st1\<lparr> processingStep := Some step \<rparr>)
                 in if doc_status data = ''complete'' then
                      st2\<lparr> poll_active := False, processingStep := Some ''done'', status := Complete,
                           completions := completions st2 + 1 \<rparr>
                    else if doc_status data = ''error'' then
                      st2\<lparr> poll_active := False, status := Error,
                           error_msg := or_default (doc_error data) ''Processing failed'' \<rparr>
                    else st2)
            | FetchRejects \<Rightarrow> st1
            | RespNotOk \<Rightarrow> st1
            | JsonRejects \<Rightarrow> st1))"

text \<open>
  The client together with the status document the pipeline publishes (\<^term>\<open>None\<close>: not
  written yet). The pipeline writes the document; the client only reads it.
\<close>

record upload_sys =
  client :: upload_state
  remote :: "status_doc option"

datatype poll_event = Tick | Response fetch_result | PipelineWrites status_doc

fun poll_step :: "upload_sys \<Rightarrow> poll_event \<Rightarrow> upload_sys" where
  "poll_step s Tick = s\<lparr> client := poll_tick (client s) \<rparr>"
| "poll_step s (Response r) = s\<lparr> client := poll_response r (client s) \<rparr>"
| "poll_step s (PipelineWrites d) = s\<lparr> remote := Some d \<rparr>"

definition poll_run :: "upload_sys \<Rightarrow> poll_event list \<Rightarrow> upload_sys" where
  "poll_run s es = foldl poll_step s es"

text \<open>\<^verbatim>\<open>handleUpload\<close> after the upload: \<^verbatim>\<open>setStatus('processing'); pollStatus(upload_id)\<close>.\<close>

definition start_polling :: "string \<Rightarrow> upload_sys" where
  "start_polling ident =
     \<lparr> client = pollStatus ident
         \<lparr> status = Processing, processingStep = None, error_msg = [], poll_url = [],
           poll_active = False, pollCount = 0, fetches_sent = 0, outstanding = 0, completions = 0 \<rparr>,
       remote = None \<rparr>"

section \<open>What the statement built by \<^verbatim>\<open>searchCatalog\<close> selects\<close>

text \<open>
  The condition each \<^verbatim>\<open>if\<close> block of \<^verbatim>\<open>searchCatalog\<close> contributes, read directly on a
  record; a filter that is not supplied contributes nothing, and a comparison with a NULL
  column is not true.
\<close>

definition bbox_ok :: "search_params \<Rightarrow> catalog_record \<Rightarrow> bool" where
  "bbox_ok q r =
     (case bbox q of
        None \<Rightarrow> True
      | Some (west, south, east, north) \<Rightarrow>
          xmax (col_bbox r) \<ge> west \<and> xmin (col_bbox r) \<le> east \<and>
          ymax (col_bbox r) \<ge> south \<and> ymin (col_bbox r) \<le> north)"

definition dateStart_ok :: "world \<Rightarrow> search_params \<Rightarrow> catalog_record \<Rightarrow> bool" where
  "dateStart_ok w q r =
     (dateStart q = [] \<or>
      (case cast_timestamp w (dateStart q) of None \<Rightarrow> False | Some t \<Rightarrow> t \<le> col_datetime r))"

definition dateEnd_ok :: "world \<Rightarrow> search_params \<Rightarrow> catalog_record \<Rightarrow> bool" where
  "dateEnd_ok w q r =
     (dateEnd q = [] \<or>
      (case cast_timestamp w (dateEnd q @ ''T23:59:59.999Z'') of
         None \<Rightarrow> False
       | Some t \<Rightarrow> col_datetime r \<le> t))"

definition platform_ok :: "world \<Rightarrow> search_params \<Rightarrow> catalog_record \<Rightarrow> bool" where
  "platform_ok w q r =
     (platform q = [] \<or>
      (case col_platform_type r of
         None \<Rightarrow> False
       | Some p \<Rightarrow>
           (if platform q = ''uav'' then sql_LOWER w p = ''uav'' \<or> sql_LOWER w p = ''drone''
            else sql_LOWER w p = toLowerCase w (platform q))))"

definition license_ok :: "world \<Rightarrow> search_params \<Rightarrow> catalog_record \<Rightarrow> bool" where
  "license_ok w q r =
     (license q = [] \<or>
      (case col_license r of
         None \<Rightarrow> False
       | Some l \<Rightarrow> like_match (''%'' @ toLowerCase w (license q) @ ''%'') (sql_LOWER w l)))"

definition maxGsd_ok :: "search_params \<Rightarrow> catalog_record \<Rightarrow> bool" where
  "maxGsd_ok q r =
     (case maxGsd q of
        None \<Rightarrow> True
      | Some g \<Rightarrow> g = 0 \<or> (case col_gsd r of None \<Rightarrow> False | Some x \<Rightarrow> x \<le> g))"

definition query_ok :: "world \<Rightarrow> search_params \<Rightarrow> catalog_record \<Rightarrow> bool" where
  "query_ok w q r =
     (query q = [] \<or>
      (case col_title r of
         None \<Rightarrow> False
       | Some t \<Rightarrow> like_match (''%'' @ toLowerCase w (query q) @ ''%'') (sql_LOWER w t)))"

definition row_matches :: "world \<Rightarrow> search_params \<Rightarrow> catalog_record \<Rightarrow> bool" where
  "row_matches w q r \<longleftrightarrow>
     bbox_ok q r \<and> dateStart_ok w q r \<and> dateEnd_ok w q r \<and> platform_ok w q r \<and>
     license_ok w q r \<and> maxGsd_ok q r \<and> query_ok w q r"

text \<open>The conditions of all the \<^verbatim>\<open>if\<close> blocks but the first, the one for the bbox.\<close>

definition nonspatial_ok :: "world \<Rightarrow> search_params \<Rightarrow> catalog_record \<Rightarrow> bool" where
  "nonspatial_ok w q r \<longleftrightarrow>
     dateStart_ok w q r \<and> dateEnd_ok w q r \<and> platform_ok w q r \<and>
     license_ok w q r \<and> maxGsd_ok q r \<and> query_ok w q r"

text \<open>The date filters that are supplied are timestamps for the engine.\<close>

definition casts_ok :: "world \<Rightarrow> search_params \<Rightarrow> bool" where
  "casts_ok w q \<longleftrightarrow>
     (dateStart q = [] \<or> cast_timestamp w (dateStart q) \<noteq> None) \<and>
     (dateEnd q = [] \<or> cast_timestamp w (dateEnd q @ ''T23:59:59.999Z'') \<noteq> None)"

text \<open>Binding a list of conditions one after the other, from one list of parameters.\<close>

fun bind_list ::
  "(string \<Rightarrow> int option) \<Rightarrow> operand sqlexpr list \<Rightarrow> sqlparam list \<Rightarrow>
     (sqlval sqlexpr list \<times> sqlparam list) option" where
  "bind_list cast [] ps = Some ([], ps)"
| "bind_list cast (c # cs) ps =
     (case bind cast c ps of None \<Rightarrow> None
      | Some (c', ps') \<Rightarrow>
          (case bind_list cast cs ps' of None \<Rightarrow> None
           | Some (cs', ps'') \<Rightarrow> Some (c' # cs', ps'')))"

text \<open>
  Two states of the pair of arrays while it is built: it binds, with no parameter left
  over, to conditions that together mean \<open>P\<close>; or it cannot bind whatever is pushed later.
\<close>

definition accepts :: "world \<Rightarrow> clauses \<Rightarrow> (catalog_record \<Rightarrow> bool) \<Rightarrow> bool" where
  "accepts w cp P \<longleftrightarrow>
     (\<exists>bs. bind_list (cast_timestamp w) (fst cp) (snd cp) = Some (bs, []) \<and>
           (\<forall>r. (\<forall>b \<in> set bs. eval (sql_LOWER w) b r = Some True) \<longleftrightarrow> P r))"

definition rejects :: "world \<Rightarrow> clauses \<Rightarrow> bool" where
  "rejects w cp \<longleftrightarrow>
     (\<forall>cs ps. bind_list (cast_timestamp w) (fst cp @ cs) (snd cp @ ps) = None)"

section \<open>The specification's wording of the search predicate and of the result order\<close>

text \<open>No \<^verbatim>\<open>LIKE\<close> wildcard occurs in a filter text.\<close>

definition wildcard_free :: "string \<Rightarrow> bool" where
  "wildcard_free p \<longleftrightarrow> CHR ''%'' \<notin> set p \<and> CHR ''_'' \<notin> set p"

text \<open>
  The predicate as the specification words it: overlap with the query rectangle, the date
  range, the categorical filters (platform, license) matching exactly up to case, the text
  filter a substring of the title.
\<close>

definition claimed_matches :: "world \<Rightarrow> search_params \<Rightarrow> catalog_record \<Rightarrow> bool" where
  "claimed_matches w q r \<longleftrightarrow>
     bbox_ok q r \<and> dateStart_ok w q r \<and> dateEnd_ok w q r \<and>
     (platform q = [] \<or>
      (case col_platform_type r of None \<Rightarrow> False
       | Some p \<Rightarrow> sql_LOWER w p = toLowerCase w (platform q))) \<and>
     (license q = [] \<or>
      (case col_license r of None \<Rightarrow> False
       | Some l \<Rightarrow> sql_LOWER w l = toLowerCase w (license q))) \<and>
     (query q = [] \<or>
      (case col_title r of None \<Rightarrow> False
       | Some t \<Rightarrow> sublist (toLowerCase w (query q)) (sql_LOWER w t)))"

text \<open>
  The two substring conditions: the filter, folded by the runtime, occurs in the column,
  folded by the engine.
\<close>

definition license_contains :: "world \<Rightarrow> search_params \<Rightarrow> catalog_record \<Rightarrow> bool" where
  "license_contains w q r =
     (license q = [] \<or>
      (case col_license r of None \<Rightarrow> False
       | Some l \<Rightarrow> sublist (toLowerCase w (license q)) (sql_LOWER w l)))"

definition title_contains :: "world \<Rightarrow> search_params \<Rightarrow> catalog_record \<Rightarrow> bool" where
  "title_contains w q r =
     (query q = [] \<or>
      (case col_title r of None \<Rightarrow> False
       | Some t \<Rightarrow> sublist (toLowerCase w (query q)) (sql_LOWER w t)))"

text \<open>
  The predicate the statement implements on filter texts without wildcards: \<^verbatim>\<open>uav\<close> also
  selects \<^verbatim>\<open>drone\<close>, and the license and text filters are substrings after folding.
\<close>

definition search_matches :: "world \<Rightarrow> search_params \<Rightarrow> catalog_record \<Rightarrow> bool" where
  "search_matches w q r \<longleftrightarrow>
     bbox_ok q r \<and> dateStart_ok w q r \<and> dateEnd_ok w q r \<and> platform_ok w q r \<and>
     license_contains w q r \<and> maxGsd_ok q r \<and> title_contains w q r"

text \<open>Strings ordered by character code, as identifiers compare.\<close>

fun str_le :: "string \<Rightarrow> string \<Rightarrow> bool" where
  "str_le [] t = True"
| "str_le (a # s) [] = False"
| "str_le (a # s) (b # t) = ((of_char a :: nat) < of_char b \<or> (a = b \<and> str_le s t))"

text \<open>The order the specification words: newest first, equal datetimes by ascending id.\<close>

definition claimed_order :: "feature list \<Rightarrow> bool" where
  "claimed_order fs =
     sorted_wrt (\<lambda>f g. prop_datetime (properties f) > prop_datetime (properties g) \<or>
                        (prop_datetime (properties f) = prop_datetime (properties g) \<and>
                         str_le (prop_id (properties f)) (prop_id (properties g)))) fs"

definition datetime_descending :: "feature list \<Rightarrow> bool" where
  "datetime_descending fs =
     sorted_wrt (\<lambda>f g. prop_datetime (properties f) \<ge> prop_datetime (properties g)) fs"

text \<open>The rectangle ring of a record's covering columns.\<close>

definition bbox_ring :: "bbox_struct \<Rightarrow> (real \<times> real) list" where
  "bbox_ring b =
     [(xmin b, ymin b), (xmax b, ymin b), (xmax b, ymax b), (xmin b, ymax b), (xmin b, ymin b)]"

section \<open>Example data\<close>

definition example_record ::
  "string \<Rightarrow> real \<Rightarrow> real \<Rightarrow> real \<Rightarrow> real \<Rightarrow> int \<Rightarrow> catalog_record" where
  "example_record ident x0 y0 x1 y1 t =
     \<lparr> col_id = ident, col_title = Some ident, col_datetime = t, col_gsd = Some 1,
       col_platform_type = Some ''Drone'', col_producer_name = None,
       col_license = Some ''CC-BY 4.0'', col_cog_href = None, col_thumbnail_href = None,
       col_file_size = Some 1024, col_width = Some 256, col_height = Some 256,
       col_bands = Some 3, col_epsg = None, col_uploaded_by = None, col_uploaded_at = None,
       col_bbox = \<lparr> xmin = x0, ymin = y0, xmax = x1, ymax = y1 \<rparr> \<rparr>"

definition recA :: catalog_record where
  "recA = example_record ''A'' (-5) (-5) 5 5 100"

definition recB :: catalog_record where
  "recB = example_record ''B'' 20 20 30 30 100"

definition recC :: catalog_record where
  "recC = example_record ''C'' (-1) (-1) 1 1 100"

text \<open>Folding of the ASCII letters, for the examples.\<close>

definition ascii_lower_char :: "char \<Rightarrow> char" where
  "ascii_lower_char c =
     (case map_of (zip ''ABCDEFGHIJKLMNOPQRSTUVWXYZ'' ''abcdefghijklmnopqrstuvwxyz'') c of
        None \<Rightarrow> c
      | Some l \<Rightarrow> l)"

definition ascii_lower :: "string \<Rightarrow> string" where
  "ascii_lower s = map ascii_lower_char s"

definition demo_cast :: "string \<Rightarrow> int option" where
  "demo_cast s =
     (if s = ''2024-01-01'' then Some 50
      else if s = ''2024-01-31T23:59:59.999Z'' then Some 150
      else None)"

definition demo_world :: "catalog_record list option \<Rightarrow> world" where
  "demo_world store =
     \<lparr> selectBundle_fails = None, instantiate_fails = None, connect_fails = None,
       set_cache_fails = None, parquet = store, cast_timestamp = demo_cast,
       toLowerCase = ascii_lower, sql_LOWER = ascii_lower \<rparr>"

definition scenario_query :: search_params where
  "scenario_query = default_params\<lparr> bbox := Some (-10, -10, 10, 10) \<rparr>"

text \<open>The connection is there, or \<^verbatim>\<open>initCatalog\<close> establishes it.\<close>

definition connects :: "world \<Rightarrow> module_state \<Rightarrow> bool" where
  "connects w s = (case ensure_conn w s of (Inr u, s') \<Rightarrow> conn s' \<noteq> None | (Inl e, s') \<Rightarrow> False)"

text \<open>
  A property made from an integer column is never a BigInt: it is \<^verbatim>\<open>null\<close> for a NULL of
  the column, else a plain Number, the double nearest to the column's integer, which is
  the integer itself when its magnitude is at most \<open>2\<^sup>5\<^sup>3\<close>.
\<close>

definition number_or_null_of :: "int option \<Rightarrow> jsval \<Rightarrow> bool" where
  "number_or_null_of c v \<longleftrightarrow>
     \<not> is_bigint v \<and>
     (case c of
        None \<Rightarrow> v = JNull
      | Some n \<Rightarrow>
          is_Number v \<and> v = JNumber (of_int (Number_bigint n)) \<and>
          (\<bar>n\<bar> \<le> 2 ^ 53 \<longrightarrow> v = JNumber (of_int n)))"

text \<open>A record whose file size has 54 bits.\<close>

definition recBig :: catalog_record where
  "recBig = (example_record ''E'' (-5) (-5) 5 5 100)\<lparr> col_file_size := Some 9007199254740993 \<rparr>"

text \<open>Record \<open>r\<close> is among the features a search returns.\<close>

definition is_returned :: "world \<Rightarrow> module_state \<Rightarrow> search_params \<Rightarrow> catalog_record \<Rightarrow> bool" where
  "is_returned w s q r =
     (case fst (searchCatalog w s q) of
        Inr fs \<Rightarrow> toFeature (select_row r) \<in> set fs
      | Inl e \<Rightarrow> False)"

text \<open>A newer record inside the scenario's query rectangle.\<close>

definition recD :: catalog_record where
  "recD = example_record ''D'' 0 0 1 1 200"

text \<open>A search with every optional filter supplied.\<close>

definition full_query :: search_params where
  "full_query =
     \<lparr> bbox = Some (-10, -10, 10, 10), dateStart = ''2024-01-01'', dateEnd = ''2024-01-31'',
       platform = ''uav'', license = ''cc-by'', maxGsd = Some 2, query = ''a'', limit = 200 \<rparr>"

text \<open>
  What holds of the module after any calls: either nothing was started, or exactly one
  set-up was, it is the one \<open>initPromise\<close> refers to, and every caller was handed it.
\<close>

definition init_inv :: "init_sys \<Rightarrow> bool" where
  "init_inv s \<longleftrightarrow>
     ((initPromise (mstate s) = None \<and> promises (mstate s) = [] \<and> returned s = []) \<or>
      (initPromise (mstate s) = Some 0 \<and> length (promises (mstate s)) = 1)) \<and>
     (\<forall>cp \<in> set (returned s). snd cp = 0)"

text \<open>An environment in which instantiating DuckDB fails.\<close>

definition failing_world :: world where
  "failing_world = (demo_world None)\<lparr> instantiate_fails := Some ''instantiate failed'' \<rparr>"

text \<open>An environment in which no DuckDB bundle can be selected.\<close>

definition no_bundle_world :: world where
  "no_bundle_world = (demo_world None)\<lparr> selectBundle_fails := Some ''no bundle'' \<rparr>"

text \<open>Two filter settings, two viewports, and the results of the two searches.\<close>

definition no_filters :: filter_state where
  "no_filters = \<lparr> flt_dateStart = [], flt_dateEnd = [], flt_platform = [], flt_license = [] \<rparr>"

definition uav_filter :: filter_state where
  "uav_filter = \<lparr> flt_dateStart = [], flt_dateEnd = [], flt_platform = ''uav'', flt_license = [] \<rparr>"

definition viewport_old :: bbox4 where
  "viewport_old = (-10, -10, 10, 10)"

definition viewport_new :: bbox4 where
  "viewport_new = (0, 0, 1, 1)"

definition results_old :: "feature list" where
  "results_old = [toFeature (select_row recA)]"

definition results_new :: "feature list" where
  "results_new = [toFeature (select_row recD)]"

text \<open>
  The earlier search (number 0) is started, then the later one (number 1); the later one
  completes first.
\<close>

definition out_of_order :: "app_event list" where
  "out_of_order =
     [CatalogInitialised, MapMoved viewport_old, DebounceFires, MapMoved viewport_new,
      DebounceFires, SearchSettles 1 (Inr results_new)]"

text \<open>
  A response that does not end the polling: anything but a document whose status is
  \<^verbatim>\<open>complete\<close> or \<^verbatim>\<open>error\<close>.
\<close>

fun quiet :: "poll_event \<Rightarrow> bool" where
  "quiet (Response (RespOk d)) = (doc_status d \<noteq> ''complete'' \<and> doc_status d \<noteq> ''error'')"
| "quiet ev = True"

definition ticks :: "poll_event list \<Rightarrow> nat" where
  "ticks es = length (filter (\<lambda>ev. ev = Tick) es)"

fun pipeline_writes :: "poll_event list \<Rightarrow> status_doc list" where
  "pipeline_writes [] = []"
| "pipeline_writes (PipelineWrites d # es) = d # pipeline_writes es"
| "pipeline_writes (ev # es) = pipeline_writes es"

definition complete_doc :: status_doc where
  "complete_doc = \<lparr> doc_step = Some ''done'', doc_status = ''complete'', doc_error = None \<rparr>"

definition poll_inv :: "upload_state \<Rightarrow> bool" where
  "poll_inv c \<longleftrightarrow>
     fetches_sent c \<le> pollCount c \<and> fetches_sent c \<le> maxPolls \<and>
     (poll_active c \<longrightarrow> pollCount c \<le> maxPolls)"

text \<open>The state of the client after quiet events only, by the number of ticks.\<close>

definition quiet_state :: "nat \<Rightarrow> upload_state \<Rightarrow> bool" where
  "quiet_state n c \<longleftrightarrow>
     (n \<le> maxPolls \<longrightarrow>
        poll_active c \<and> status c = Processing \<and> fetches_sent c = n \<and> pollCount c = n) \<and>
     (n > maxPolls \<longrightarrow>
        \<not> poll_active c \<and> status c = Error \<and> error_msg c = timeout_message \<and>
        fetches_sent c = maxPolls)"

section \<open>Binding and evaluating the built statement\<close>

lemma bind_operand_append:
  "bind_operand cast t x ps = Some (v, ps') \<Longrightarrow> bind_operand cast t x (ps @ ys) = Some (v, ps' @ ys)"
  by (cases "(cast, t, x, ps)" rule: bind_operand.cases) auto

lemma bind_append:
  "bind cast e ps = Some (e', ps') \<Longrightarrow> bind cast e (ps @ ys) = Some (e', ps' @ ys)"
proof (induction e arbitrary: ps e' ps')
  case (And a b)
  then show ?case by (auto split: option.splits prod.splits)
next
  case (Or a b)
  then show ?case by (auto split: option.splits prod.splits)
qed (auto dest: bind_operand_append)

lemma bind_list_snoc:
  "bind_list cast (cs @ [d]) ps =
     (case bind_list cast cs ps of None \<Rightarrow> None
      | Some (bs, ps') \<Rightarrow>
          (case bind cast d ps' of None \<Rightarrow> None
           | Some (b, ps'') \<Rightarrow> Some (bs @ [b], ps'')))"
  by (induction cs arbitrary: ps) (auto split: option.splits)

lemma bind_list_length:
  "bind_list cast cs ps = Some (bs, rest) \<Longrightarrow> length bs = length cs"
  by (induction cs arbitrary: ps bs) (auto split: option.splits)

lemma bind_foldl_And:
  "bind cast (foldl And c cs) ps =
     (case bind_list cast (c # cs) ps of None \<Rightarrow> None
      | Some (bs, rest) \<Rightarrow> Some (foldl And (hd bs) (tl bs), rest))"
proof (induction cs arbitrary: ps rule: rev_induct)
  case Nil
  then show ?case by (auto split: option.splits)
next
  case (snoc d cs)
  have "c # cs @ [d] = (c # cs) @ [d]" by simp
  then have *: "bind_list cast (c # cs @ [d]) ps =
     (case bind_list cast (c # cs) ps of None \<Rightarrow> None
      | Some (bs, ps') \<Rightarrow>
          (case bind cast d ps' of None \<Rightarrow> None
           | Some (b, ps'') \<Rightarrow> Some (bs @ [b], ps'')))"
    using bind_list_snoc[of cast "c # cs" d ps] by simp
  show ?case
  proof (cases "bind_list cast (c # cs) ps")
    case None
    then show ?thesis using snoc[of ps] * by simp
  next
    case (Some a)
    obtain bs ps' where a: "a = (bs, ps')" by (cases a)
    from Some a have "bs \<noteq> []" using bind_list_length[of cast "c # cs" ps bs ps'] by auto
    then show ?thesis using snoc[of ps] * Some a
      by (cases bs) (auto split: option.splits)
  qed
qed

lemma sql_and_True: "sql_and a b = Some True \<longleftrightarrow> a = Some True \<and> b = Some True"
  by (cases "(a, b)" rule: sql_and.cases) auto

lemma eval_foldl_And:
  "eval (sql_LOWER w) (foldl And b bs) r = Some True \<longleftrightarrow> (\<forall>e \<in> set (b # bs). eval (sql_LOWER w) e r = Some True)"
  by (induction bs arbitrary: b) (auto simp: sql_and_True)

lemma bind_list_append_params:
  "bind_list cast cs ps = Some (bs, rest) \<Longrightarrow> bind_list cast cs (ps @ ys) = Some (bs, rest @ ys)"
proof (induction cs arbitrary: ps bs rest)
  case Nil
  then show ?case by simp
next
  case (Cons c cs)
  from Cons.prems obtain c' ps' cs' where
    c: "bind cast c ps = Some (c', ps')" and
    r: "bind_list cast cs ps' = Some (cs', rest)" and bs: "bs = c' # cs'"
    by (auto split: option.splits)
  from bind_append[OF c, of ys] Cons.IH[OF r] bs show ?case by simp
qed

lemma bind_list_append:
  "bind_list cast (cs @ ds) ps =
     (case bind_list cast cs ps of None \<Rightarrow> None
      | Some (bs, ps') \<Rightarrow>
          (case bind_list cast ds ps' of None \<Rightarrow> None
           | Some (bs', ps'') \<Rightarrow> Some (bs @ bs', ps'')))"
  by (induction cs arbitrary: ps) (auto split: option.splits)

lemma accepts_push:
  assumes acc: "accepts w cp P"
    and b: "\<And>ys. bind (cast_timestamp w) c (pc @ ys) = Some (b, ys)"
    and e: "\<And>r. eval (sql_LOWER w) b r = Some True \<longleftrightarrow> Q r"
  shows "accepts w (fst cp @ [c], snd cp @ pc) (\<lambda>r. P r \<and> Q r)"
proof -
  from acc obtain bs where bs: "bind_list (cast_timestamp w) (fst cp) (snd cp) = Some (bs, [])"
    and P: "\<And>r. (\<forall>b \<in> set bs. eval (sql_LOWER w) b r = Some True) \<longleftrightarrow> P r"
    unfolding accepts_def by blast
  from bind_list_append_params[OF bs, of pc]
  have "bind_list (cast_timestamp w) (fst cp) (snd cp @ pc) = Some (bs, pc)" by simp
  moreover from b[of "[]"] have "bind (cast_timestamp w) c pc = Some (b, [])" by simp
  ultimately have "bind_list (cast_timestamp w) (fst cp @ [c]) (snd cp @ pc) = Some (bs @ [b], [])"
    by (simp add: bind_list_snoc)
  moreover have "\<And>r. (\<forall>x \<in> set (bs @ [b]). eval (sql_LOWER w) x r = Some True) \<longleftrightarrow> P r \<and> Q r"
    using P e by auto
  ultimately show ?thesis unfolding accepts_def by auto
qed

lemma rejects_push:
  assumes acc: "accepts w cp P" and b: "\<And>ys. bind (cast_timestamp w) c (pc @ ys) = None"
  shows "rejects w (fst cp @ [c], snd cp @ pc)"
proof -
  from acc obtain bs where bs: "bind_list (cast_timestamp w) (fst cp) (snd cp) = Some (bs, [])"
    unfolding accepts_def by blast
  have "bind_list (cast_timestamp w) ((fst cp @ [c]) @ cs) ((snd cp @ pc) @ ps) = None" for cs ps
  proof -
    from bind_list_append_params[OF bs, of "pc @ ps"]
    have "bind_list (cast_timestamp w) (fst cp) (snd cp @ pc @ ps) = Some (bs, pc @ ps)" by simp
    moreover have "bind_list (cast_timestamp w) (c # cs) (pc @ ps) = None" using b[of ps] by simp
    ultimately show ?thesis
      using bind_list_append[of "cast_timestamp w" "fst cp" "c # cs" "snd cp @ pc @ ps"] by simp
  qed
  then show ?thesis unfolding rejects_def by simp
qed

lemma rejects_mono:
  "rejects w cp \<Longrightarrow> rejects w (fst cp @ cs, snd cp @ ps)"
  unfolding rejects_def by simp

lemma accepts_cong: "accepts w cp P \<Longrightarrow> (\<And>r. P r \<longleftrightarrow> Q r) \<Longrightarrow> accepts w cp Q"
  unfolding accepts_def by auto

lemma accepts_empty: "accepts w ([], []) (\<lambda>r. True)"
  unfolding accepts_def by simp

lemma push_bbox_accepts:
  assumes "accepts w cp P"
  shows "accepts w (push_bbox q cp) (\<lambda>r. P r \<and> bbox_ok q r)"
proof (cases "bbox q")
  case None
  then show ?thesis using assms
    by (auto simp: push_bbox_def bbox_ok_def elim: accepts_cong)
next
  case (Some b)
  obtain west south east north where b: "b = (west, south, east, north)" by (cases b) auto
  show ?thesis
    unfolding push_bbox_def bbox_ok_def Some b option.case prod.case
    by (rule accepts_push[OF assms]) (auto simp: sql_and_True)
qed

lemma push_dateStart_accepts:
  assumes "accepts w cp P" "dateStart q = [] \<or> cast_timestamp w (dateStart q) \<noteq> None"
  shows "accepts w (push_dateStart q cp) (\<lambda>r. P r \<and> dateStart_ok w q r)"
proof (cases "dateStart q = []")
  case True
  then show ?thesis using assms
    by (auto simp: push_dateStart_def dateStart_ok_def elim: accepts_cong)
next
  case False
  with assms(2) obtain t where t: "cast_timestamp w (dateStart q) = Some t" by auto
  show ?thesis
    unfolding push_dateStart_def dateStart_ok_def using False
    apply simp
    apply (rule accepts_push[OF assms(1)])
    using t by auto
qed

lemma push_dateEnd_accepts:
  assumes "accepts w cp P" "dateEnd q = [] \<or> cast_timestamp w (dateEnd q @ ''T23:59:59.999Z'') \<noteq> None"
  shows "accepts w (push_dateEnd q cp) (\<lambda>r. P r \<and> dateEnd_ok w q r)"
proof (cases "dateEnd q = []")
  case True
  then show ?thesis using assms
    by (auto simp: push_dateEnd_def dateEnd_ok_def elim: accepts_cong)
next
  case False
  with assms(2) obtain t where t: "cast_timestamp w (dateEnd q @ ''T23:59:59.999Z'') = Some t" by auto
  show ?thesis
    unfolding push_dateEnd_def dateEnd_ok_def using False
    apply simp
    apply (rule accepts_push[OF assms(1)])
    using t by auto
qed

lemma sql_or_True: "sql_or a b = Some True \<longleftrightarrow> a = Some True \<or> b = Some True"
  by (cases "(a, b)" rule: sql_or.cases) auto

lemma push_platform_accepts:
  assumes "accepts w cp P"
  shows "accepts w (push_platform (toLowerCase w) q cp) (\<lambda>r. P r \<and> platform_ok w q r)"
proof -
  consider "platform q = []" | "platform q = ''uav''" | "platform q \<noteq> []" "platform q \<noteq> ''uav''"
    by blast
  then show ?thesis
  proof cases
    case 1
    then show ?thesis using assms
      by (auto simp: push_platform_def platform_ok_def elim: accepts_cong)
  next
    case 2
    have "accepts w (fst cp @ [Or (Eq (Lower Platform_type) (Literal (PStr ''uav'')))
                         (Eq (Lower Platform_type) (Literal (PStr ''drone'')))], snd cp @ [])
            (\<lambda>r. P r \<and> (case col_platform_type r of None \<Rightarrow> False
                 | Some p \<Rightarrow> sql_LOWER w p = ''uav'' \<or> sql_LOWER w p = ''drone''))"
      by (rule accepts_push[OF assms]) (auto simp: sql_or_True split: option.splits)
    then show ?thesis using 2
      by (auto simp: push_platform_def platform_ok_def elim!: accepts_cong split: option.splits)
  next
    case 3
    have "accepts w (fst cp @ [Eq (Lower Platform_type) Placeholder],
                        snd cp @ [PStr (toLowerCase w (platform q))])
            (\<lambda>r. P r \<and> (case col_platform_type r of None \<Rightarrow> False
                 | Some p \<Rightarrow> sql_LOWER w p = toLowerCase w (platform q)))"
      by (rule accepts_push[OF assms]) (auto split: option.splits)
    then show ?thesis using 3
      by (auto simp: push_platform_def platform_ok_def elim!: accepts_cong split: option.splits)
  qed
qed

lemma push_license_accepts:
  assumes "accepts w cp P"
  shows "accepts w (push_license (toLowerCase w) q cp) (\<lambda>r. P r \<and> license_ok w q r)"
proof (cases "license q = []")
  case True
  then show ?thesis using assms
    by (auto simp: push_license_def license_ok_def elim: accepts_cong)
next
  case False
  have "accepts w (fst cp @ [Like (Lower License) Placeholder],
                      snd cp @ [PStr (''%'' @ toLowerCase w (license q) @ ''%'')])
          (\<lambda>r. P r \<and> (case col_license r of None \<Rightarrow> False
               | Some l \<Rightarrow> like_match (''%'' @ toLowerCase w (license q) @ ''%'') (sql_LOWER w l)))"
    by (rule accepts_push[OF assms]) (auto split: option.splits)
  then show ?thesis using False by (simp add: push_license_def license_ok_def)
qed

lemma push_maxGsd_accepts:
  assumes "accepts w cp P"
  shows "accepts w (push_maxGsd q cp) (\<lambda>r. P r \<and> maxGsd_ok q r)"
proof (cases "maxGsd q")
  case None
  then show ?thesis using assms
    by (auto simp: push_maxGsd_def maxGsd_ok_def elim: accepts_cong)
next
  case (Some g)
  show ?thesis
  proof (cases "g = 0")
    case True
    then show ?thesis using assms Some
      by (auto simp: push_maxGsd_def maxGsd_ok_def elim: accepts_cong)
  next
    case False
    have "accepts w (fst cp @ [Le (Col Gsd) Placeholder], snd cp @ [PNum g])
            (\<lambda>r. P r \<and> (case col_gsd r of None \<Rightarrow> False | Some x \<Rightarrow> x \<le> g))"
      by (rule accepts_push[OF assms]) (auto split: option.splits)
    then show ?thesis using False Some by (simp add: push_maxGsd_def maxGsd_ok_def)
  qed
qed

lemma push_query_accepts:
  assumes "accepts w cp P"
  shows "accepts w (push_query (toLowerCase w) q cp) (\<lambda>r. P r \<and> query_ok w q r)"
proof (cases "query q = []")
  case True
  then show ?thesis using assms
    by (auto simp: push_query_def query_ok_def elim: accepts_cong)
next
  case False
  have "accepts w (fst cp @ [Like (Lower Title) Placeholder],
                      snd cp @ [PStr (''%'' @ toLowerCase w (query q) @ ''%'')])
          (\<lambda>r. P r \<and> (case col_title r of None \<Rightarrow> False
               | Some t \<Rightarrow> like_match (''%'' @ toLowerCase w (query q) @ ''%'') (sql_LOWER w t)))"
    by (rule accepts_push[OF assms]) (auto split: option.splits)
  then show ?thesis using False by (simp add: push_query_def query_ok_def)
qed

lemma push_dateStart_rejects:
  assumes "accepts w cp P" "dateStart q \<noteq> []" "cast_timestamp w (dateStart q) = None"
  shows "rejects w (push_dateStart q cp)"
  unfolding push_dateStart_def using assms(2)
  by simp (rule rejects_push[OF assms(1)], simp add: assms(3))

lemma push_dateEnd_rejects:
  assumes "accepts w cp P" "dateEnd q \<noteq> []" "cast_timestamp w (dateEnd q @ ''T23:59:59.999Z'') = None"
  shows "rejects w (push_dateEnd q cp)"
  unfolding push_dateEnd_def using assms(2)
  by simp (rule rejects_push[OF assms(1)], simp add: assms(3))

lemma push_dateEnd_keeps_rejects: "rejects w cp \<Longrightarrow> rejects w (push_dateEnd q cp)"
  unfolding push_dateEnd_def by (auto intro: rejects_mono)

lemma push_platform_keeps_rejects: "rejects w cp \<Longrightarrow> rejects w (push_platform (toLowerCase w) q cp)"
  unfolding push_platform_def using rejects_mono[of w cp _ "[]"]
  by (auto intro: rejects_mono)

lemma push_license_keeps_rejects: "rejects w cp \<Longrightarrow> rejects w (push_license (toLowerCase w) q cp)"
  unfolding push_license_def by (auto intro: rejects_mono)

lemma push_maxGsd_keeps_rejects: "rejects w cp \<Longrightarrow> rejects w (push_maxGsd q cp)"
  unfolding push_maxGsd_def by (auto intro: rejects_mono split: option.splits)

lemma push_query_keeps_rejects: "rejects w cp \<Longrightarrow> rejects w (push_query (toLowerCase w) q cp)"
  unfolding push_query_def by (auto intro: rejects_mono)

lemma build_clauses_accepts:
  assumes "casts_ok w q"
  shows "accepts w (build_clauses (toLowerCase w) q) (row_matches w q)"
proof -
  from assms have s: "dateStart q = [] \<or> cast_timestamp w (dateStart q) \<noteq> None"
    and e: "dateEnd q = [] \<or> cast_timestamp w (dateEnd q @ ''T23:59:59.999Z'') \<noteq> None"
    by (auto simp: casts_ok_def)
  have "accepts w (build_clauses (toLowerCase w) q)
          (\<lambda>r. ((((((True \<and> bbox_ok q r) \<and> dateStart_ok w q r) \<and> dateEnd_ok w q r) \<and>
                platform_ok w q r) \<and> license_ok w q r) \<and> maxGsd_ok q r) \<and> query_ok w q r)"
    unfolding build_clauses_def
    by (intro push_query_accepts push_maxGsd_accepts push_license_accepts push_platform_accepts
          push_dateEnd_accepts[where q = q and w = w, OF _ e]
          push_dateStart_accepts[where q = q and w = w, OF _ s]
          push_bbox_accepts accepts_empty)
  then show ?thesis by (rule accepts_cong) (simp add: row_matches_def)
qed

lemma build_clauses_rejects:
  assumes "\<not> casts_ok w q"
  shows "rejects w (build_clauses (toLowerCase w) q)"
proof -
  have b: "accepts w (push_bbox q ([], [])) (\<lambda>r. True \<and> bbox_ok q r)"
    by (intro push_bbox_accepts accepts_empty)
  have "rejects w (push_dateEnd q (push_dateStart q (push_bbox q ([], []))))"
  proof (cases "dateStart q \<noteq> [] \<and> cast_timestamp w (dateStart q) = None")
    case True
    then show ?thesis
      by (intro push_dateEnd_keeps_rejects push_dateStart_rejects[OF b]) auto
  next
    case False
    then have s: "dateStart q = [] \<or> cast_timestamp w (dateStart q) \<noteq> None" by auto
    with assms have e: "dateEnd q \<noteq> []" "cast_timestamp w (dateEnd q @ ''T23:59:59.999Z'') = None"
      by (auto simp: casts_ok_def)
    show ?thesis
      by (rule push_dateEnd_rejects[OF push_dateStart_accepts[OF b s] e])
  qed
  then show ?thesis
    unfolding build_clauses_def
    by (intro push_query_keeps_rejects push_maxGsd_keeps_rejects push_license_keeps_rejects
          push_platform_keeps_rejects)
qed

lemma run_select_build:
  assumes "parquet w = Some store"
  shows "run_select w (where_clause (fst (build_clauses (toLowerCase w) q))) (snd (build_clauses (toLowerCase w) q)) n =
     (if casts_ok w q
      then Inr (map select_row (take n (order_by_datetime_desc
                 (filter (row_matches w q) store))))
      else Inl (QueryError ''bind failed''))"
proof (cases "casts_ok w q")
  case True
  from build_clauses_accepts[OF True] obtain bs where
    bs: "bind_list (cast_timestamp w) (fst (build_clauses (toLowerCase w) q)) (snd (build_clauses (toLowerCase w) q)) = Some (bs, [])"
    and P: "\<And>r. (\<forall>b \<in> set bs. eval (sql_LOWER w) b r = Some True) \<longleftrightarrow> row_matches w q r"
    unfolding accepts_def by blast
  show ?thesis
  proof (cases "fst (build_clauses (toLowerCase w) q)")
    case Nil
    with bs have "snd (build_clauses (toLowerCase w) q) = []" "bs = []" by auto
    moreover from this P have "filter (row_matches w q) store = store" by simp
    ultimately show ?thesis using True Nil assms
      by (simp add: run_select_def where_clause_def)
  next
    case (Cons c cs)
    from bs Cons have ne: "bs \<noteq> []" using bind_list_length[OF bs] by auto
    have "bind (cast_timestamp w) (foldl And c cs) (snd (build_clauses (toLowerCase w) q)) =
            Some (foldl And (hd bs) (tl bs), [])"
      using bs Cons by (simp add: bind_foldl_And)
    moreover have "(eval (sql_LOWER w) (foldl And (hd bs) (tl bs)) r = Some True) = row_matches w q r" for r
      using P[of r] ne eval_foldl_And[of w "hd bs" "tl bs" r] by simp
    ultimately show ?thesis using True Cons assms
      by (simp add: run_select_def where_clause_def)
  qed
next
  case False
  from build_clauses_rejects[OF False]
  have n: "bind_list (cast_timestamp w) (fst (build_clauses (toLowerCase w) q)) (snd (build_clauses (toLowerCase w) q)) = None"
    unfolding rejects_def by (metis append_Nil2)
  then obtain c cs where c: "fst (build_clauses (toLowerCase w) q) = c # cs"
    by (cases "fst (build_clauses (toLowerCase w) q)") auto
  have "bind (cast_timestamp w) (foldl And c cs) (snd (build_clauses (toLowerCase w) q)) = None"
    using n c by (simp add: bind_foldl_And)
  then show ?thesis using False c assms
    by (simp add: run_select_def where_clause_def)
qed

section \<open>\<^verbatim>\<open>LIKE\<close> patterns and the result of \<^verbatim>\<open>searchCatalog\<close>\<close>

lemma like_percent: "like_match ''%'' s"
  by (induction s) auto

lemma like_prefix:
  "wildcard_free p \<Longrightarrow> like_match (p @ ''%'') s \<longleftrightarrow> prefix p s"
proof (induction p arbitrary: s)
  case Nil
  then show ?case using like_percent by simp
next
  case (Cons a p)
  then have "wildcard_free p" "a \<noteq> CHR ''%''" "a \<noteq> CHR ''_''"
    by (auto simp: wildcard_free_def)
  with Cons.IH show ?case by (cases s) auto
qed

lemma like_any_then:
  "like_match (CHR ''%'' # P) s \<longleftrightarrow> (\<exists>t. suffix t s \<and> like_match P t)"
proof (induction s)
  case Nil
  then show ?case by (cases P) auto
next
  case (Cons c cs)
  then show ?case by (auto simp: suffix_Cons)
qed

lemma like_sublist:
  assumes "wildcard_free p"
  shows "like_match (''%'' @ p @ ''%'') s \<longleftrightarrow> sublist p s"
proof -
  have "like_match (''%'' @ p @ ''%'') s \<longleftrightarrow> (\<exists>t. suffix t s \<and> prefix p t)"
    using like_any_then[of "p @ ''%''" s] like_prefix[OF assms] by simp
  then show ?thesis by (simp add: sublist_altdef')
qed

lemma like_prefix_any: "prefix p s \<Longrightarrow> like_match (p @ ''%'') s"
proof (induction p arbitrary: s)
  case Nil
  then show ?case using like_percent by simp
next
  case (Cons a p)
  then obtain t where s: "s = a # t" and t: "prefix p t" by (cases s) auto
  from Cons.IH[OF t] have m: "like_match (p @ ''%'') t" .
  then have "like_match (CHR ''%'' # p @ ''%'') t"
    using like_any_then[of "p @ ''%''" t] by auto
  with m show ?case by (simp add: s)
qed

lemma like_sublist_any: "sublist p s \<Longrightarrow> like_match (''%'' @ p @ ''%'') s"
proof -
  assume "sublist p s"
  then obtain t where "suffix t s" "prefix p t" by (auto simp: sublist_altdef')
  then show ?thesis
    using like_any_then[of "p @ ''%''" s] like_prefix_any[of p t] by auto
qed

lemma row_matches_search_matches:
  "wildcard_free (toLowerCase w (license q)) \<Longrightarrow> wildcard_free (toLowerCase w (query q)) \<Longrightarrow>
   row_matches w q r \<longleftrightarrow> search_matches w q r"
  by (auto simp add: row_matches_def search_matches_def license_ok_def query_ok_def
        license_contains_def title_contains_def like_sublist
        simp del: append.simps split: option.splits)

lemma search_matches_row_matches: "search_matches w q r \<Longrightarrow> row_matches w q r"
  by (auto simp add: row_matches_def search_matches_def license_ok_def query_ok_def
        license_contains_def title_contains_def like_sublist_any
        simp del: append.simps split: option.splits)

lemma row_matches_license_contains:
  "wildcard_free (toLowerCase w (license q)) \<Longrightarrow> row_matches w q r \<Longrightarrow> license_contains w q r"
  by (auto simp add: row_matches_def license_ok_def license_contains_def like_sublist
        simp del: append.simps split: option.splits)

lemma row_matches_title_contains:
  "wildcard_free (toLowerCase w (query q)) \<Longrightarrow> row_matches w q r \<Longrightarrow> title_contains w q r"
  by (auto simp add: row_matches_def query_ok_def title_contains_def like_sublist
        simp del: append.simps split: option.splits)

lemma searchCatalog_connected:
  assumes "connects w s" "parquet w = Some store"
  shows "fst (searchCatalog w s q) =
     (if casts_ok w q
      then Inr (map toFeature (map select_row (take (limit q) (order_by_datetime_desc
                 (filter (row_matches w q) store)))))
      else Inl (QueryError ''bind failed''))"
proof -
  obtain u s' where e: "ensure_conn w s = (Inr u, s')" and c: "conn s' \<noteq> None"
    using assms(1) unfolding connects_def by (auto split: prod.splits sum.splits)
  then obtain c' where c': "conn s' = Some c'" by auto
  show ?thesis
    by (simp add: searchCatalog_def e c' case_prod_unfold run_select_build[OF assms(2)])
qed

lemma run_select_no_parquet:
  "parquet w = None \<Longrightarrow> run_select w wh ps n = Inl (ConnectionError ''read_parquet failed'')"
  by (simp add: run_select_def)

lemma searchCatalog_Inr:
  assumes "fst (searchCatalog w s q) = Inr fs"
  shows "connects w s \<and> casts_ok w q \<and>
         (\<exists>store. parquet w = Some store \<and>
            fs = map toFeature (map select_row (take (limit q) (order_by_datetime_desc
                   (filter (row_matches w q) store)))))"
proof -
  from assms have c: "connects w s"
    unfolding searchCatalog_def connects_def
    by (auto split: prod.splits sum.splits option.splits)
  then obtain u s' c' where e: "ensure_conn w s = (Inr u, s')" and c': "conn s' = Some c'"
    unfolding connects_def by (auto split: prod.splits sum.splits)
  have "parquet w \<noteq> None"
  proof
    assume "parquet w = None"
    then have "fst (searchCatalog w s q) = Inl (ConnectionError ''read_parquet failed'')"
      by (simp add: searchCatalog_def e c' case_prod_unfold run_select_no_parquet)
    with assms show False by simp
  qed
  then obtain store where p: "parquet w = Some store" by auto
  from searchCatalog_connected[OF c p, of q] assms show ?thesis
    using c p by (auto split: if_splits)
qed

section \<open>Facts about the example data and about features\<close>

lemma connects_demo: "connects (demo_world st) initial_module"
  by (simp add: connects_def ensure_conn_def await_initCatalog_def initCatalog_def setup_body_def
        settle_def promise_at_def demo_world_def initial_module_def)

lemma parquet_demo: "parquet (demo_world st) = st"
  by (simp add: demo_world_def)

lemma cast_demo: "cast_timestamp (demo_world st) = demo_cast"
  by (simp add: demo_world_def)

lemma order_single: "order_by_datetime_desc [r] = [r]"
  by (simp add: order_by_datetime_desc_def)

lemma order_nil: "order_by_datetime_desc [] = []"
  by (simp add: order_by_datetime_desc_def)

lemma scenario_matches: "row_matches w scenario_query r \<longleftrightarrow>
   xmax (col_bbox r) \<ge> -10 \<and> xmin (col_bbox r) \<le> 10 \<and> ymax (col_bbox r) \<ge> -10 \<and> ymin (col_bbox r) \<le> 10"
  by (simp add: row_matches_def bbox_ok_def dateStart_ok_def dateEnd_ok_def platform_ok_def
        license_ok_def maxGsd_ok_def query_ok_def scenario_query_def default_params_def)

lemma scenario_casts: "casts_ok w scenario_query"
  by (simp add: casts_ok_def scenario_query_def default_params_def)

lemma scenario_limit: "limit scenario_query = 200"
  by (simp add: scenario_query_def default_params_def)

lemma example_record_cols:
  "col_id (example_record ident x0 y0 x1 y1 t) = ident"
  "col_title (example_record ident x0 y0 x1 y1 t) = Some ident"
  "col_datetime (example_record ident x0 y0 x1 y1 t) = t"
  "col_gsd (example_record ident x0 y0 x1 y1 t) = Some 1"
  "col_platform_type (example_record ident x0 y0 x1 y1 t) = Some ''Drone''"
  "col_license (example_record ident x0 y0 x1 y1 t) = Some ''CC-BY 4.0''"
  "col_file_size (example_record ident x0 y0 x1 y1 t) = Some 1024"
  "col_epsg (example_record ident x0 y0 x1 y1 t) = None"
  "col_bbox (example_record ident x0 y0 x1 y1 t) = \<lparr> xmin = x0, ymin = y0, xmax = x1, ymax = y1 \<rparr>"
  by (simp_all add: example_record_def)

lemma search_demo:
  assumes "casts_ok (demo_world (Some store)) q"
  shows "fst (searchCatalog (demo_world (Some store)) initial_module q) =
     Inr (map toFeature (map select_row (take (limit q) (order_by_datetime_desc
            (filter (row_matches (demo_world (Some store)) q) store)))))"
  using searchCatalog_connected[OF connects_demo parquet_demo, of store q] assms
  by simp

lemma search_demo_scenario:
  "fst (searchCatalog (demo_world (Some [recA, recB])) initial_module scenario_query) =
     Inr [toFeature (select_row recA)]"
proof -
  have "row_matches w scenario_query recA" for w
    by (simp add: scenario_matches recA_def example_record_cols)
  moreover have "\<not> row_matches w scenario_query recB" for w
    by (simp add: scenario_matches recB_def example_record_cols)
  ultimately show ?thesis
    using search_demo[OF scenario_casts, of "[recA, recB]"]
    by (simp add: order_single scenario_limit)
qed

lemma feature_of_row:
  "geometry (toFeature (select_row r)) =
     \<lparr> geometry_type = ''Polygon'',
       coordinates = [[(xmin (col_bbox r), ymin (col_bbox r)), (xmax (col_bbox r), ymin (col_bbox r)),
                       (xmax (col_bbox r), ymax (col_bbox r)), (xmin (col_bbox r), ymax (col_bbox r)),
                       (xmin (col_bbox r), ymin (col_bbox r))]] \<rparr>"
  "prop_datetime (properties (toFeature (select_row r))) = col_datetime r"
  "prop_id (properties (toFeature (select_row r))) = col_id r"
  "prop_file_size (properties (toFeature (select_row r))) = num (arrow_int (col_file_size r))"
  "prop_width (properties (toFeature (select_row r))) = num (arrow_int (col_width r))"
  "prop_height (properties (toFeature (select_row r))) = num (arrow_int (col_height r))"
  "prop_bands (properties (toFeature (select_row r))) = num (arrow_int (col_bands r))"
  "prop_epsg (properties (toFeature (select_row r))) = num (arrow_int (col_epsg r))"
  by (simp_all add: toFeature_def select_row_def)

lemma bit_length_le: "m < 2 ^ k \<Longrightarrow> bit_length m \<le> k"
proof (induction k arbitrary: m)
  case 0
  then show ?case by (simp add: bit_length.simps)
next
  case (Suc k)
  then have "m div 2 < 2 ^ k" by auto
  from Suc.IH[OF this] show ?case by (subst bit_length.simps) simp
qed

lemma bit_length_eq: "2 ^ k \<le> m \<Longrightarrow> m < 2 ^ Suc k \<Longrightarrow> bit_length m = Suc k"
proof (induction k arbitrary: m)
  case 0
  then have "m = 1" by simp
  then show ?case by (simp add: bit_length.simps[of "Suc 0"] bit_length.simps[of 0])
next
  case (Suc k)
  then have "2 ^ k \<le> m div 2" "m div 2 < 2 ^ Suc k" by auto
  from Suc.IH[OF this] Suc.prems show ?case by (subst bit_length.simps) auto
qed

lemma round_half_even_0: "round_half_even 0 m = m"
  by (simp add: round_half_even_def)

lemma Number_nat_exact:
  assumes "m \<le> 2 ^ 53"
  shows "Number_nat m = m"
proof (cases "m < 2 ^ 53")
  case True
  from bit_length_le[OF this] show ?thesis by (simp add: Number_nat_def round_half_even_0)
next
  case False
  with assms have m: "m = 2 ^ 53" by simp
  have "bit_length m = Suc 53" unfolding m by (rule bit_length_eq) simp_all
  then show ?thesis by (simp add: Number_nat_def round_half_even_def m)
qed

lemma Number_bigint_exact: "\<bar>n\<bar> \<le> 2 ^ 53 \<Longrightarrow> Number_bigint n = n"
proof -
  assume a: "\<bar>n\<bar> \<le> 2 ^ 53"
  then have "nat \<bar>n\<bar> \<le> 2 ^ 53" by (simp add: nat_le_iff)
  from Number_nat_exact[OF this] show ?thesis
    by (auto simp: Number_bigint_def abs_if split: if_splits)
qed

lemma Number_bigint_rounds: "Number_bigint 9007199254740993 = 9007199254740992"
proof -
  have "bit_length 9007199254740993 = Suc 53" by (rule bit_length_eq) simp_all
  then show ?thesis by (simp add: Number_bigint_def Number_nat_def round_half_even_def)
qed

lemma number_or_null_num: "number_or_null_of c (num (arrow_int c))"
  by (cases c) (simp_all add: number_or_null_of_def Number_bigint_exact)

lemma searchCatalog_members:
  assumes "fst (searchCatalog w s q) = Inr fs" "f \<in> set fs"
  shows "\<exists>store r. parquet w = Some store \<and> r \<in> set store \<and>
           row_matches w q r \<and> f = toFeature (select_row r)"
proof -
  from searchCatalog_Inr[OF assms(1)] obtain store where
    p: "parquet w = Some store" and
    fs: "fs = map toFeature (map select_row (take (limit q) (order_by_datetime_desc
                   (filter (row_matches w q) store))))"
    by blast
  from assms(2) fs obtain r where
    r: "r \<in> set (take (limit q) (order_by_datetime_desc (filter (row_matches w q) store)))"
    and f: "f = toFeature (select_row r)" by auto
  from r have "r \<in> set (order_by_datetime_desc (filter (row_matches w q) store))"
    by (rule in_set_takeD)
  then have "r \<in> set store" "row_matches w q r"
    by (simp_all add: order_by_datetime_desc_def)
  with p f show ?thesis by blast
qed

section \<open>Claims about \<^verbatim>\<open>searchCatalog\<close>\<close>

text \<open>
  Claim C7 (concrete scenario A). A search with the query rectangle
  \<^verbatim>\<open>bbox=[-10,-10,10,10]\<close> and no other filter, over a store that holds exactly a record
  \<open>a\<close> with bbox \<^verbatim>\<open>[-5,-5,5,5]\<close> and a record \<open>b\<close> with bbox \<^verbatim>\<open>[20,20,30,30]\<close> (in either
  order), returns exactly the one-element list holding the feature of \<open>a\<close>.
\<close>

theorem scenario_A:
  assumes "connects w s" and "parquet w = Some store" and "store = [a, b] \<or> store = [b, a]"
    and "col_bbox a = \<lparr> xmin = -5, ymin = -5, xmax = 5, ymax = 5 \<rparr>"
    and "col_bbox b = \<lparr> xmin = 20, ymin = 20, xmax = 30, ymax = 30 \<rparr>"
  shows "fst (searchCatalog w s scenario_query) = Inr [toFeature (select_row a)]"
proof -
  have a: "row_matches w scenario_query a"
    using assms(4) by (simp add: scenario_matches)
  have b: "\<not> row_matches w scenario_query b"
    using assms(5) by (simp add: scenario_matches)
  from a b assms(3) have "filter (row_matches w scenario_query) store = [a]"
    by auto
  moreover have "limit scenario_query = 200"
    by (simp add: scenario_query_def default_params_def)
  ultimately show ?thesis
    using searchCatalog_connected[OF assms(1,2), of scenario_query]
    by (simp add: scenario_casts order_single)
qed

theorem scenario_A_witness:
  "connects (demo_world (Some [recA, recB])) initial_module \<and>
   parquet (demo_world (Some [recA, recB])) = Some [recA, recB] \<and>
   col_bbox recA = \<lparr> xmin = -5, ymin = -5, xmax = 5, ymax = 5 \<rparr> \<and>
   col_bbox recB = \<lparr> xmin = 20, ymin = 20, xmax = 30, ymax = 30 \<rparr> \<and>
   fst (searchCatalog (demo_world (Some [recA, recB])) initial_module scenario_query) =
     Inr [toFeature (select_row recA)]"
proof -
  have c: "connects (demo_world (Some [recA, recB])) initial_module" by (rule connects_demo)
  have p: "parquet (demo_world (Some [recA, recB])) = Some [recA, recB]" by (rule parquet_demo)
  have s: "[recA, recB] = [recA, recB] \<or> [recA, recB] = [recB, recA]" by simp
  have a: "col_bbox recA = \<lparr> xmin = -5, ymin = -5, xmax = 5, ymax = 5 \<rparr>"
    by (simp add: recA_def example_record_def)
  have b: "col_bbox recB = \<lparr> xmin = 20, ymin = 20, xmax = 30, ymax = 30 \<rparr>"
    by (simp add: recB_def example_record_def)
  from scenario_A[OF c p s a b] c p a b show ?thesis by simp
qed

text \<open>
  Claim C10, as amended. Every feature returned by \<^verbatim>\<open>searchCatalog\<close> comes from a record of
  the store and has a geometry of type Polygon with a single ring of exactly five points,
  the corners of the axis-aligned rectangle of that record's bbox columns, closed (the first
  point is the last point); and each of \<^verbatim>\<open>file_size\<close>, \<^verbatim>\<open>width\<close>, \<^verbatim>\<open>height\<close>, \<^verbatim>\<open>bands\<close>,
  \<^verbatim>\<open>epsg\<close> is never a BigInt: where the store holds an integer it is a plain Number, the
  double nearest to that integer (the integer itself when its magnitude is at most
  \<open>2\<^sup>5\<^sup>3\<close>), and where the store holds NULL it is \<^verbatim>\<open>null\<close>.
\<close>

theorem feature_polygon_and_numbers:
  assumes "fst (searchCatalog w s q) = Inr fs" and "f \<in> set fs"
  shows "\<exists>store r. parquet w = Some store \<and> r \<in> set store \<and>
           geometry_type (geometry f) = ''Polygon'' \<and>
           coordinates (geometry f) =
             [[(xmin (col_bbox r), ymin (col_bbox r)), (xmax (col_bbox r), ymin (col_bbox r)),
               (xmax (col_bbox r), ymax (col_bbox r)), (xmin (col_bbox r), ymax (col_bbox r)),
               (xmin (col_bbox r), ymin (col_bbox r))]] \<and>
           length (coordinates (geometry f)) = 1 \<and>
           (\<forall>ring \<in> set (coordinates (geometry f)). length ring = 5 \<and> hd ring = last ring) \<and>
           number_or_null_of (col_file_size r) (prop_file_size (properties f)) \<and>
           number_or_null_of (col_width r) (prop_width (properties f)) \<and>
           number_or_null_of (col_height r) (prop_height (properties f)) \<and>
           number_or_null_of (col_bands r) (prop_bands (properties f)) \<and>
           number_or_null_of (col_epsg r) (prop_epsg (properties f))"
proof -
  from searchCatalog_members[OF assms] obtain store r where
    "parquet w = Some store" "r \<in> set store" "f = toFeature (select_row r)" by blast
  then show ?thesis
    by (intro exI[of _ store] exI[of _ r]) (simp add: feature_of_row number_or_null_num)
qed

lemma recBig_cols:
  "col_bbox recBig = \<lparr> xmin = -5, ymin = -5, xmax = 5, ymax = 5 \<rparr>"
  "col_file_size recBig = Some 9007199254740993"
  "col_width recBig = Some 256"
  "col_epsg recBig = None"
  by (simp_all add: recBig_def example_record_def)

lemma search_demo_big:
  "fst (searchCatalog (demo_world (Some [recBig])) initial_module scenario_query) =
     Inr [toFeature (select_row recBig)]"
  using search_demo[OF scenario_casts, of "[recBig]"]
  by (simp add: scenario_matches recBig_cols order_single scenario_limit)

theorem feature_polygon_and_numbers_witness:
  "fst (searchCatalog (demo_world (Some [recBig])) initial_module scenario_query) =
     Inr [toFeature (select_row recBig)] \<and>
   col_file_size recBig = Some 9007199254740993 \<and>
   col_width recBig = Some 256 \<and>
   col_epsg recBig = None \<and>
   coordinates (geometry (toFeature (select_row recBig))) =
     [[(-5, -5), (5, -5), (5, 5), (-5, 5), (-5, -5)]] \<and>
   prop_file_size (properties (toFeature (select_row recBig))) = JNumber 9007199254740992 \<and>
   prop_width (properties (toFeature (select_row recBig))) = JNumber 256 \<and>
   prop_epsg (properties (toFeature (select_row recBig))) = JNull \<and>
   (\<exists>store r. parquet (demo_world (Some [recBig])) = Some store \<and> r \<in> set store \<and>
      coordinates (geometry (toFeature (select_row recBig))) =
        [[(xmin (col_bbox r), ymin (col_bbox r)), (xmax (col_bbox r), ymin (col_bbox r)),
          (xmax (col_bbox r), ymax (col_bbox r)), (xmin (col_bbox r), ymax (col_bbox r)),
          (xmin (col_bbox r), ymin (col_bbox r))]] \<and>
      number_or_null_of (col_file_size r) (prop_file_size (properties (toFeature (select_row recBig)))) \<and>
      number_or_null_of (col_width r) (prop_width (properties (toFeature (select_row recBig)))) \<and>
      number_or_null_of (col_epsg r) (prop_epsg (properties (toFeature (select_row recBig)))))"
proof -
  have m: "toFeature (select_row recBig) \<in> set [toFeature (select_row recBig)]" by simp
  from feature_polygon_and_numbers[OF search_demo_big m]
  have "\<exists>store r. parquet (demo_world (Some [recBig])) = Some store \<and> r \<in> set store \<and>
      coordinates (geometry (toFeature (select_row recBig))) =
        [[(xmin (col_bbox r), ymin (col_bbox r)), (xmax (col_bbox r), ymin (col_bbox r)),
          (xmax (col_bbox r), ymax (col_bbox r)), (xmin (col_bbox r), ymax (col_bbox r)),
          (xmin (col_bbox r), ymin (col_bbox r))]] \<and>
      number_or_null_of (col_file_size r) (prop_file_size (properties (toFeature (select_row recBig)))) \<and>
      number_or_null_of (col_width r) (prop_width (properties (toFeature (select_row recBig)))) \<and>
      number_or_null_of (col_epsg r) (prop_epsg (properties (toFeature (select_row recBig))))"
    by blast
  moreover have "coordinates (geometry (toFeature (select_row recBig))) =
      [[(-5, -5), (5, -5), (5, 5), (-5, 5), (-5, -5)]]"
    by (simp add: feature_of_row recBig_cols)
  moreover have "prop_file_size (properties (toFeature (select_row recBig))) =
      JNumber 9007199254740992"
    by (simp add: feature_of_row recBig_cols Number_bigint_rounds)
  moreover have "prop_width (properties (toFeature (select_row recBig))) = JNumber 256"
    by (simp add: feature_of_row recBig_cols Number_bigint_exact)
  moreover have "prop_epsg (properties (toFeature (select_row recBig))) = JNull"
    by (simp add: feature_of_row recBig_cols)
  ultimately show ?thesis using search_demo_big recBig_cols by blast
qed

text \<open>
  Claim C10 as stated fails for a NULL of the store: the record A has no \<^verbatim>\<open>epsg\<close>, and the
  \<^verbatim>\<open>epsg\<close> of its feature is \<^verbatim>\<open>null\<close>, not a Number.
\<close>

theorem integer_property_null_counterexample:
  "fst (searchCatalog (demo_world (Some [recA, recB])) initial_module scenario_query) =
     Inr [toFeature (select_row recA)] \<and>
   col_epsg recA = None \<and>
   prop_epsg (properties (toFeature (select_row recA))) = JNull \<and>
   \<not> is_Number (prop_epsg (properties (toFeature (select_row recA))))"
  using search_demo_scenario
  by (simp add: feature_of_row recA_def example_record_cols)

lemma order_desc_sorted:
  "sorted_wrt (\<lambda>x y. col_datetime x \<ge> col_datetime y) (order_by_datetime_desc xs)"
proof -
  have "sorted (map (\<lambda>r. - col_datetime r) (sort_key (\<lambda>r. - col_datetime r) xs))"
    by (rule sorted_sort_key)
  then show ?thesis
    by (simp add: sorted_map order_by_datetime_desc_def)
qed

lemma features_descending:
  "datetime_descending (map toFeature (map select_row (take n (order_by_datetime_desc xs))))"
proof -
  have "sorted_wrt (\<lambda>x y. col_datetime x \<ge> col_datetime y) (take n (order_by_datetime_desc xs))"
    by (rule sorted_wrt_take[OF order_desc_sorted])
  then show ?thesis
    by (simp add: datetime_descending_def sorted_wrt_map feature_of_row)
qed

text \<open>
  Claim C2, as amended. For every search that returns, the returned list is ordered
  descending by datetime. (Nothing is promised about records of equal datetime: the
  statement sorts by \<^verbatim>\<open>datetime\<close> alone.)
\<close>

theorem result_datetime_descending:
  assumes "fst (searchCatalog w s q) = Inr fs"
  shows "datetime_descending fs"
  using searchCatalog_Inr[OF assms] features_descending by auto

lemma order_demo_AD: "order_by_datetime_desc [recA, recD] = [recD, recA]"
  by (simp add: order_by_datetime_desc_def recA_def recD_def example_record_cols)

lemma order_demo_CA: "order_by_datetime_desc [recC, recA] = [recC, recA]"
  by (simp add: order_by_datetime_desc_def recA_def recC_def example_record_cols)

lemma scenario_rows:
  "row_matches (demo_world st) scenario_query recA"
  "\<not> row_matches (demo_world st) scenario_query recB"
  "row_matches (demo_world st) scenario_query recC"
  "row_matches (demo_world st) scenario_query recD"
  by (simp_all add: scenario_matches recA_def recB_def recC_def recD_def example_record_cols)

lemma search_demo_AD:
  "fst (searchCatalog (demo_world (Some [recA, recD])) initial_module scenario_query) =
     Inr [toFeature (select_row recD), toFeature (select_row recA)]"
  using search_demo[OF scenario_casts, of "[recA, recD]"]
  by (simp add: scenario_rows order_demo_AD scenario_limit)

lemma search_demo_CA:
  "fst (searchCatalog (demo_world (Some [recC, recA])) initial_module scenario_query) =
     Inr [toFeature (select_row recC), toFeature (select_row recA)]"
  using search_demo[OF scenario_casts, of "[recC, recA]"]
  by (simp add: scenario_rows order_demo_CA scenario_limit)

theorem result_datetime_descending_witness:
  "fst (searchCatalog (demo_world (Some [recA, recD])) initial_module scenario_query) =
     Inr [toFeature (select_row recD), toFeature (select_row recA)] \<and>
   prop_datetime (properties (toFeature (select_row recD))) = 200 \<and>
   prop_datetime (properties (toFeature (select_row recA))) = 100 \<and>
   datetime_descending [toFeature (select_row recD), toFeature (select_row recA)]"
  using result_datetime_descending[OF search_demo_AD] search_demo_AD
  by (simp add: feature_of_row recA_def recD_def example_record_cols)

text \<open>
  Claim C2 as stated fails: two records of equal datetime that the store holds in the order
  C, A come back in that order, not by ascending id.
\<close>

theorem tie_break_by_id_counterexample:
  "fst (searchCatalog (demo_world (Some [recC, recA])) initial_module scenario_query) =
     Inr [toFeature (select_row recC), toFeature (select_row recA)] \<and>
   prop_datetime (properties (toFeature (select_row recC))) =
     prop_datetime (properties (toFeature (select_row recA))) \<and>
   prop_id (properties (toFeature (select_row recC))) = ''C'' \<and>
   prop_id (properties (toFeature (select_row recA))) = ''A'' \<and>
   \<not> claimed_order [toFeature (select_row recC), toFeature (select_row recA)]"
  using search_demo_CA
  by (simp add: claimed_order_def feature_of_row recA_def recC_def example_record_cols)

lemma searchCatalog_Inr_iff:
  "(\<exists>fs. fst (searchCatalog w s q) = Inr fs) \<longleftrightarrow>
     connects w s \<and> parquet w \<noteq> None \<and> casts_ok w q"
proof
  assume "\<exists>fs. fst (searchCatalog w s q) = Inr fs"
  then show "connects w s \<and> parquet w \<noteq> None \<and> casts_ok w q"
    using searchCatalog_Inr by fastforce
next
  assume a: "connects w s \<and> parquet w \<noteq> None \<and> casts_ok w q"
  then obtain store where "parquet w = Some store" by auto
  with a searchCatalog_connected[of w s store q]
  show "\<exists>fs. fst (searchCatalog w s q) = Inr fs" by simp
qed

lemma isl_searchCatalog:
  "isl (fst (searchCatalog w s q)) \<longleftrightarrow>
     \<not> (connects w s \<and> parquet w \<noteq> None \<and> casts_ok w q)"
  using searchCatalog_Inr_iff[of w s q] by (cases "fst (searchCatalog w s q)") auto

lemma casts_ok_bbox: "casts_ok w (q\<lparr> bbox := b \<rparr>) = casts_ok w q"
  by (simp add: casts_ok_def)

lemma row_matches_bbox:
  "row_matches w (q\<lparr> bbox := b \<rparr>) r \<longleftrightarrow>
     (case b of
        None \<Rightarrow> True
      | Some (west, south, east, north) \<Rightarrow>
          xmax (col_bbox r) \<ge> west \<and> xmin (col_bbox r) \<le> east \<and>
          ymax (col_bbox r) \<ge> south \<and> ymin (col_bbox r) \<le> north) \<and>
     nonspatial_ok w q r"
  by (simp add: row_matches_def nonspatial_ok_def bbox_ok_def dateStart_ok_def dateEnd_ok_def
        platform_ok_def license_ok_def maxGsd_ok_def query_ok_def cong: option.case_cong)

lemma searchCatalog_bbox_result:
  assumes "fst (searchCatalog w s (q\<lparr> bbox := b \<rparr>)) = Inr fs" "parquet w = Some store"
  shows "fs = map toFeature (map select_row (take (limit q) (order_by_datetime_desc
           (filter (\<lambda>r. (case b of
                None \<Rightarrow> True
              | Some (west, south, east, north) \<Rightarrow>
                  xmax (col_bbox r) \<ge> west \<and> xmin (col_bbox r) \<le> east \<and>
                  ymax (col_bbox r) \<ge> south \<and> ymin (col_bbox r) \<le> north) \<and>
              nonspatial_ok w q r) store))))"
proof -
  have "row_matches w (q\<lparr> bbox := b \<rparr>) = (\<lambda>r. (case b of
                None \<Rightarrow> True
              | Some (west, south, east, north) \<Rightarrow>
                  xmax (col_bbox r) \<ge> west \<and> xmin (col_bbox r) \<le> east \<and>
                  ymax (col_bbox r) \<ge> south \<and> ymin (col_bbox r) \<le> north) \<and>
              nonspatial_ok w q r)"
    using row_matches_bbox[where w = w and q = q and b = b] by blast
  with searchCatalog_Inr[OF assms(1)] assms(2) show ?thesis by auto
qed

text \<open>
  Claim C3, as amended. The bbox argument is optional and is not validated: no value of
  bbox, be it missing or with west > east or south > north, makes a search fail (whether
  \<^verbatim>\<open>searchCatalog\<close> fails is the same for every bbox put in place of the query's); a search
  without bbox applies no spatial filter, so its result is made of the records that satisfy
  the other filters; and a search with a bbox, whatever the order of its four numbers,
  applies the four comparisons xmax \<ge> west, xmin \<le> east, ymax \<ge> south, ymin \<le> north to
  them as they are given.
\<close>

theorem search_failure_independent_of_bbox:
  "isl (fst (searchCatalog w s (q\<lparr> bbox := b \<rparr>))) = isl (fst (searchCatalog w s q)) \<and>
   (\<forall>fs store.
      fst (searchCatalog w s (q\<lparr> bbox := None \<rparr>)) = Inr fs \<and> parquet w = Some store \<longrightarrow>
      fs = map toFeature (map select_row (take (limit q) (order_by_datetime_desc
             (filter (nonspatial_ok w q) store))))) \<and>
   (\<forall>fs store west south east north.
      fst (searchCatalog w s (q\<lparr> bbox := Some (west, south, east, north) \<rparr>)) = Inr fs \<and>
      parquet w = Some store \<longrightarrow>
      fs = map toFeature (map select_row (take (limit q) (order_by_datetime_desc
             (filter (\<lambda>r. xmax (col_bbox r) \<ge> west \<and> xmin (col_bbox r) \<le> east \<and>
                          ymax (col_bbox r) \<ge> south \<and> ymin (col_bbox r) \<le> north \<and>
                          nonspatial_ok w q r) store)))))"
proof -
  have 1: "isl (fst (searchCatalog w s (q\<lparr> bbox := b \<rparr>))) = isl (fst (searchCatalog w s q))"
    by (simp add: isl_searchCatalog casts_ok_bbox)
  have 2: "fs = map toFeature (map select_row (take (limit q) (order_by_datetime_desc
             (filter (nonspatial_ok w q) store))))"
    if "fst (searchCatalog w s (q\<lparr> bbox := None \<rparr>)) = Inr fs" "parquet w = Some store"
    for fs store
    using searchCatalog_bbox_result[OF that] by simp
  have 3: "fs = map toFeature (map select_row (take (limit q) (order_by_datetime_desc
             (filter (\<lambda>r. xmax (col_bbox r) \<ge> west \<and> xmin (col_bbox r) \<le> east \<and>
                          ymax (col_bbox r) \<ge> south \<and> ymin (col_bbox r) \<le> north \<and>
                          nonspatial_ok w q r) store))))"
    if "fst (searchCatalog w s (q\<lparr> bbox := Some (west, south, east, north) \<rparr>)) = Inr fs"
      "parquet w = Some store"
    for fs store west south east north
    using searchCatalog_bbox_result[OF that] by (simp add: conj_assoc)
  from 1 2 3 show ?thesis by blast
qed

lemma default_matches: "row_matches w default_params r"
  by (simp add: row_matches_def bbox_ok_def dateStart_ok_def dateEnd_ok_def platform_ok_def
        license_ok_def maxGsd_ok_def query_ok_def default_params_def)

lemma default_limit: "limit default_params = 200" "limit (default_params\<lparr> bbox := b \<rparr>) = 200"
  by (simp_all add: default_params_def)

lemma default_casts: "casts_ok w default_params"
  by (simp add: casts_ok_def default_params_def)

lemma inverted_matches:
  "row_matches w (default_params\<lparr> bbox := Some (1, 1, -1, -1) \<rparr>) r \<longleftrightarrow>
     xmax (col_bbox r) \<ge> 1 \<and> xmin (col_bbox r) \<le> -1 \<and> ymax (col_bbox r) \<ge> 1 \<and> ymin (col_bbox r) \<le> -1"
  by (simp add: row_matches_def bbox_ok_def dateStart_ok_def dateEnd_ok_def platform_ok_def
        license_ok_def maxGsd_ok_def query_ok_def default_params_def)

lemma order_demo_AB: "order_by_datetime_desc [recA, recB] = [recA, recB]"
  by (simp add: order_by_datetime_desc_def recA_def recB_def example_record_cols)

lemma search_demo_no_bbox:
  "fst (searchCatalog (demo_world (Some [recA, recB])) initial_module default_params) =
     Inr [toFeature (select_row recA), toFeature (select_row recB)]"
  using search_demo[OF default_casts, of "[recA, recB]"]
  by (simp add: default_matches order_demo_AB default_limit)

lemma search_demo_inverted:
  "fst (searchCatalog (demo_world (Some [recA, recB])) initial_module
         (default_params\<lparr> bbox := Some (1, 1, -1, -1) \<rparr>)) =
     Inr [toFeature (select_row recA)]"
proof -
  have "casts_ok w (default_params\<lparr> bbox := Some (1, 1, -1, -1) \<rparr>)" for w
    by (simp add: casts_ok_bbox default_casts)
  from search_demo[OF this, of "[recA, recB]"] show ?thesis
    by (simp add: inverted_matches recA_def recB_def example_record_cols order_single
          default_limit)
qed

theorem search_failure_independent_of_bbox_witness:
  "isl (fst (searchCatalog (demo_world (Some [recA, recB])) initial_module
         (default_params\<lparr> bbox := Some (1, 1, -1, -1) \<rparr>))) =
   isl (fst (searchCatalog (demo_world (Some [recA, recB])) initial_module default_params)) \<and>
   \<not> isl (fst (searchCatalog (demo_world (Some [recA, recB])) initial_module default_params)) \<and>
   fst (searchCatalog (demo_world (Some [recA, recB])) initial_module
         (default_params\<lparr> bbox := None \<rparr>)) =
     Inr [toFeature (select_row recA), toFeature (select_row recB)] \<and>
   [toFeature (select_row recA), toFeature (select_row recB)] =
     map toFeature (map select_row (take (limit default_params) (order_by_datetime_desc
       (filter (nonspatial_ok (demo_world (Some [recA, recB])) default_params) [recA, recB])))) \<and>
   fst (searchCatalog (demo_world (Some [recA, recB])) initial_module
         (default_params\<lparr> bbox := Some (1, 1, -1, -1) \<rparr>)) =
     Inr [toFeature (select_row recA)] \<and>
   [toFeature (select_row recA)] =
     map toFeature (map select_row (take (limit default_params) (order_by_datetime_desc
       (filter (\<lambda>r. xmax (col_bbox r) \<ge> 1 \<and> xmin (col_bbox r) \<le> -1 \<and>
                    ymax (col_bbox r) \<ge> 1 \<and> ymin (col_bbox r) \<le> -1 \<and>
                    nonspatial_ok (demo_world (Some [recA, recB])) default_params r)
          [recA, recB]))))"
proof -
  let ?W = "demo_world (Some [recA, recB])"
  note main = search_failure_independent_of_bbox[where w = ?W and s = initial_module
      and q = default_params and b = "Some (1, 1, -1, -1)"]
  have n: "default_params\<lparr> bbox := None \<rparr> = default_params"
    by (simp add: default_params_def)
  have a: "fst (searchCatalog ?W initial_module (default_params\<lparr> bbox := None \<rparr>)) =
     Inr [toFeature (select_row recA), toFeature (select_row recB)]"
    using search_demo_no_bbox by (simp only: n)
  have p: "parquet ?W = Some [recA, recB]" by (rule parquet_demo)
  from main have 1: "isl (fst (searchCatalog ?W initial_module
         (default_params\<lparr> bbox := Some (1, 1, -1, -1) \<rparr>))) =
      isl (fst (searchCatalog ?W initial_module default_params))"
    by (rule conjunct1)
  have 2: "\<not> isl (fst (searchCatalog ?W initial_module default_params))"
    by (simp add: search_demo_no_bbox)
  from main a p have 3: "[toFeature (select_row recA), toFeature (select_row recB)] =
     map toFeature (map select_row (take (limit default_params) (order_by_datetime_desc
       (filter (nonspatial_ok ?W default_params) [recA, recB]))))"
    by blast
  from main search_demo_inverted p have 4: "[toFeature (select_row recA)] =
     map toFeature (map select_row (take (limit default_params) (order_by_datetime_desc
       (filter (\<lambda>r. xmax (col_bbox r) \<ge> 1 \<and> xmin (col_bbox r) \<le> -1 \<and>
                    ymax (col_bbox r) \<ge> 1 \<and> ymin (col_bbox r) \<le> -1 \<and>
                    nonspatial_ok ?W default_params r)
          [recA, recB]))))"
    by blast
  from 1 2 a 3 search_demo_inverted 4 show ?thesis by (intro conjI)
qed

text \<open>
  Claim C3 as stated fails: a search without bbox returns every record of the store, and a
  search whose bbox has west > east and south > north returns the record that satisfies the
  four comparisons; neither fails.
\<close>

theorem bbox_mandatory_counterexample:
  "bbox default_params = None \<and>
   fst (searchCatalog (demo_world (Some [recA, recB])) initial_module default_params) =
     Inr [toFeature (select_row recA), toFeature (select_row recB)] \<and>
   fst (searchCatalog (demo_world (Some [recA, recB])) initial_module
         (default_params\<lparr> bbox := Some (1, 1, -1, -1) \<rparr>)) =
     Inr [toFeature (select_row recA)]"
  using search_demo_no_bbox search_demo_inverted by (simp add: default_params_def)

lemma is_returned_iff:
  assumes "fst (searchCatalog w s q) = Inr fs"
  shows "is_returned w s q r \<longleftrightarrow> toFeature (select_row r) \<in> set fs"
  using assms by (simp add: is_returned_def)

lemma bbox_ok_Some:
  "bbox q = Some (west, south, east, north) \<Longrightarrow>
   bbox_ok q r \<longleftrightarrow> xmax (col_bbox r) \<ge> west \<and> xmin (col_bbox r) \<le> east \<and>
                 ymax (col_bbox r) \<ge> south \<and> ymin (col_bbox r) \<le> north"
  by (simp add: bbox_ok_def)

text \<open>
  Claim C1, as amended. For every search that returns, with a bbox: every returned feature
  is the feature of a record of the store whose bbox overlaps the query rectangle
  (xmax \<ge> west, xmin \<le> east, ymax \<ge> south, ymin \<le> north) and that satisfies every
  supplied filter, where the date range is inclusive from \<^verbatim>\<open>dateStart\<close> to the last
  millisecond of \<^verbatim>\<open>dateEnd\<close>, the platform filter matches exactly up to case except that
  \<^verbatim>\<open>uav\<close> also selects \<^verbatim>\<open>drone\<close>, \<^verbatim>\<open>maxGsd\<close> bounds \<^verbatim>\<open>gsd\<close>, and the license and text filters,
  folded to lower case, match the folded license and title as the \<^verbatim>\<open>LIKE\<close> pattern
  \<^verbatim>\<open>%filter%\<close>, that is, as substrings when the folded filter holds neither \<^verbatim>\<open>%\<close> nor \<^verbatim>\<open>_\<close>.
  The result is the first \<^verbatim>\<open>limit\<close> such records in result order, so every such record is
  returned when fewer than \<^verbatim>\<open>limit\<close> features come back; a record that holds the folded
  filters as substrings is always such a record. For filters without wildcards, the records
  returned are exactly the first \<^verbatim>\<open>limit\<close> records that overlap and satisfy the filters, with
  license and text as substrings.
\<close>

theorem search_returns_matching_records:
  assumes "fst (searchCatalog w s q) = Inr fs" and "parquet w = Some store"
    and "bbox q = Some (west, south, east, north)"
  shows "(\<forall>f \<in> set fs. \<exists>r \<in> set store. f = toFeature (select_row r) \<and>
            xmax (col_bbox r) \<ge> west \<and> xmin (col_bbox r) \<le> east \<and>
            ymax (col_bbox r) \<ge> south \<and> ymin (col_bbox r) \<le> north \<and>
            dateStart_ok w q r \<and> dateEnd_ok w q r \<and> platform_ok w q r \<and> maxGsd_ok q r \<and>
            license_ok w q r \<and> query_ok w q r \<and>
            (wildcard_free (toLowerCase w (license q)) \<longrightarrow> license_contains w q r) \<and>
            (wildcard_free (toLowerCase w (query q)) \<longrightarrow> title_contains w q r)) \<and>
         (length fs < limit q \<longrightarrow>
            (\<forall>r \<in> set store. row_matches w q r \<longrightarrow> is_returned w s q r)) \<and>
         (\<forall>r. search_matches w q r \<longrightarrow> row_matches w q r) \<and>
         fs = map toFeature (map select_row (take (limit q) (order_by_datetime_desc
                (filter (row_matches w q) store)))) \<and>
         (wildcard_free (toLowerCase w (license q)) \<and> wildcard_free (toLowerCase w (query q)) \<longrightarrow>
            (length (filter (search_matches w q) store) \<le> limit q \<longrightarrow>
               (\<forall>r \<in> set store. search_matches w q r \<longrightarrow> is_returned w s q r)) \<and>
            fs = map toFeature (map select_row (take (limit q) (order_by_datetime_desc
                   (filter (search_matches w q) store)))))"
proof -
  let ?R = "row_matches w q"
  let ?M = "search_matches w q"
  from searchCatalog_Inr[OF assms(1)] assms(2)
  have fs: "fs = map toFeature (map select_row (take (limit q) (order_by_datetime_desc
                (filter ?R store))))"
    by auto
  have 1: "\<exists>r \<in> set store. f = toFeature (select_row r) \<and>
            xmax (col_bbox r) \<ge> west \<and> xmin (col_bbox r) \<le> east \<and>
            ymax (col_bbox r) \<ge> south \<and> ymin (col_bbox r) \<le> north \<and>
            dateStart_ok w q r \<and> dateEnd_ok w q r \<and> platform_ok w q r \<and> maxGsd_ok q r \<and>
            license_ok w q r \<and> query_ok w q r \<and>
            (wildcard_free (toLowerCase w (license q)) \<longrightarrow> license_contains w q r) \<and>
            (wildcard_free (toLowerCase w (query q)) \<longrightarrow> title_contains w q r)"
    if "f \<in> set fs" for f
  proof -
    from searchCatalog_members[OF assms(1) that] assms(2) obtain r where
      r: "r \<in> set store" "row_matches w q r" "f = toFeature (select_row r)"
      by auto
    from r(2) have "bbox_ok q r" "dateStart_ok w q r" "dateEnd_ok w q r" "platform_ok w q r"
      "maxGsd_ok q r" "license_ok w q r" "query_ok w q r"
      by (simp_all add: row_matches_def)
    moreover from this(1) have "xmax (col_bbox r) \<ge> west \<and> xmin (col_bbox r) \<le> east \<and>
            ymax (col_bbox r) \<ge> south \<and> ymin (col_bbox r) \<le> north"
      using bbox_ok_Some[OF assms(3)] by simp
    moreover have "wildcard_free (toLowerCase w (license q)) \<longrightarrow> license_contains w q r"
      using row_matches_license_contains[OF _ r(2)] by blast
    moreover have "wildcard_free (toLowerCase w (query q)) \<longrightarrow> title_contains w q r"
      using row_matches_title_contains[OF _ r(2)] by blast
    ultimately show ?thesis using r(1,3) by blast
  qed
  have all: "is_returned w s q r"
    if "length (filter P store) \<le> limit q" "r \<in> set store" "P r"
      and "fs = map toFeature (map select_row (take (limit q) (order_by_datetime_desc
                (filter P store))))" for r P
  proof -
    from that(1) have "take (limit q) (order_by_datetime_desc (filter P store)) =
        order_by_datetime_desc (filter P store)"
      by (simp add: order_by_datetime_desc_def)
    moreover from that(2,3) have "r \<in> set (order_by_datetime_desc (filter P store))"
      by (simp add: order_by_datetime_desc_def)
    ultimately have "toFeature (select_row r) \<in> set fs" using that(4) by auto
    then show ?thesis by (simp add: is_returned_iff[OF assms(1)])
  qed
  have 2: "is_returned w s q r" if "length fs < limit q" "r \<in> set store" "?R r" for r
  proof -
    from that(1) fs have "length (filter ?R store) \<le> limit q"
      by (simp add: order_by_datetime_desc_def)
    from all[OF this that(2,3) fs] show ?thesis .
  qed
  have 3: "?M r \<longrightarrow> ?R r" for r
    using search_matches_row_matches by blast
  have 4: "(length (filter ?M store) \<le> limit q \<longrightarrow>
               (\<forall>r \<in> set store. ?M r \<longrightarrow> is_returned w s q r)) \<and>
            fs = map toFeature (map select_row (take (limit q) (order_by_datetime_desc
                   (filter ?M store))))"
    if wl: "wildcard_free (toLowerCase w (license q))"
      and wq: "wildcard_free (toLowerCase w (query q))"
  proof -
    have eq: "?R = ?M" using row_matches_search_matches[OF wl wq] by blast
    with fs have fs': "fs = map toFeature (map select_row (take (limit q)
        (order_by_datetime_desc (filter ?M store))))" by simp
    with all[where P = ?M] show ?thesis by blast
  qed
  from 1 have c1: "\<forall>f \<in> set fs. \<exists>r \<in> set store. f = toFeature (select_row r) \<and>
            xmax (col_bbox r) \<ge> west \<and> xmin (col_bbox r) \<le> east \<and>
            ymax (col_bbox r) \<ge> south \<and> ymin (col_bbox r) \<le> north \<and>
            dateStart_ok w q r \<and> dateEnd_ok w q r \<and> platform_ok w q r \<and> maxGsd_ok q r \<and>
            license_ok w q r \<and> query_ok w q r \<and>
            (wildcard_free (toLowerCase w (license q)) \<longrightarrow> license_contains w q r) \<and>
            (wildcard_free (toLowerCase w (query q)) \<longrightarrow> title_contains w q r)"
    by blast
  from 2 have c2: "length fs < limit q \<longrightarrow>
            (\<forall>r \<in> set store. row_matches w q r \<longrightarrow> is_returned w s q r)"
    by blast
  from 3 have c3: "\<forall>r. ?M r \<longrightarrow> ?R r" by blast
  from 4 have c5: "wildcard_free (toLowerCase w (license q)) \<and>
        wildcard_free (toLowerCase w (query q)) \<longrightarrow>
            (length (filter ?M store) \<le> limit q \<longrightarrow>
               (\<forall>r \<in> set store. ?M r \<longrightarrow> is_returned w s q r)) \<and>
            fs = map toFeature (map select_row (take (limit q) (order_by_datetime_desc
                   (filter ?M store))))"
    by blast
  show ?thesis
    using c1 c2 c3 fs c5 by (intro conjI)
qed

lemma lower_examples:
  "ascii_lower ''CC-BY 4.0'' = ''cc-by 4.0''"
  "ascii_lower ''Drone'' = ''drone''"
  "ascii_lower ''cc-by'' = ''cc-by''"
  "ascii_lower ''cc'' = ''cc''"
  "ascii_lower ''uav'' = ''uav''"
  "ascii_lower ''A'' = ''a''"
  "ascii_lower ''a'' = ''a''"
  "ascii_lower ''_'' = ''_''"
  by (simp_all add: ascii_lower_def ascii_lower_char_def)

lemma lower_demo:
  "toLowerCase (demo_world st) = ascii_lower" "sql_LOWER (demo_world st) = ascii_lower"
  by (simp_all add: demo_world_def)

lemma demo_cast_examples:
  "demo_cast ''2024-01-01'' = Some 50"
  "demo_cast (''2024-01-31'' @ ''T23:59:59.999Z'') = Some 150"
  by (simp_all add: demo_cast_def)

lemma full_query_fields:
  "bbox full_query = Some (-10, -10, 10, 10)" "dateStart full_query = ''2024-01-01''"
  "dateEnd full_query = ''2024-01-31''" "platform full_query = ''uav''"
  "license full_query = ''cc-by''" "maxGsd full_query = Some 2" "query full_query = ''a''"
  "limit full_query = 200"
  by (simp_all add: full_query_def)

lemma full_query_casts: "casts_ok (demo_world st) full_query"
  using demo_cast_examples by (simp add: casts_ok_def full_query_fields cast_demo)

lemma full_query_rows:
  "row_matches (demo_world st) full_query recA"
  "\<not> row_matches (demo_world st) full_query recB"
proof -
  have l: "like_match ''%cc-by%'' ''cc-by 4.0''" by simp
  have t: "like_match ''%a%'' ''a''" by simp
  show "row_matches (demo_world st) full_query recA"
    using demo_cast_examples l t
    by (simp add: row_matches_def bbox_ok_def dateStart_ok_def dateEnd_ok_def platform_ok_def
          license_ok_def maxGsd_ok_def query_ok_def full_query_fields recA_def
          example_record_cols lower_examples lower_demo cast_demo)
  show "\<not> row_matches (demo_world st) full_query recB"
    by (simp add: row_matches_def bbox_ok_def full_query_fields recB_def example_record_cols)
qed

lemma search_demo_full:
  "fst (searchCatalog (demo_world (Some [recA, recB])) initial_module full_query) =
     Inr [toFeature (select_row recA)]"
  using search_demo[OF full_query_casts, of "[recA, recB]"]
  by (simp add: full_query_rows order_single full_query_fields)

theorem search_returns_matching_records_witness:
  "fst (searchCatalog (demo_world (Some [recA, recB])) initial_module full_query) =
     Inr [toFeature (select_row recA)] \<and>
   bbox full_query = Some (-10, -10, 10, 10) \<and>
   wildcard_free (toLowerCase (demo_world (Some [recA, recB])) (license full_query)) \<and>
   wildcard_free (toLowerCase (demo_world (Some [recA, recB])) (query full_query)) \<and>
   (\<exists>r \<in> set [recA, recB].
       toFeature (select_row recA) = toFeature (select_row r) \<and>
       xmax (col_bbox r) \<ge> -10 \<and> xmin (col_bbox r) \<le> 10 \<and>
       ymax (col_bbox r) \<ge> -10 \<and> ymin (col_bbox r) \<le> 10 \<and>
       dateStart_ok (demo_world (Some [recA, recB])) full_query r \<and>
       dateEnd_ok (demo_world (Some [recA, recB])) full_query r \<and>
       platform_ok (demo_world (Some [recA, recB])) full_query r \<and>
       maxGsd_ok full_query r \<and>
       license_contains (demo_world (Some [recA, recB])) full_query r \<and>
       title_contains (demo_world (Some [recA, recB])) full_query r) \<and>
   is_returned (demo_world (Some [recA, recB])) initial_module full_query recA"
proof -
  let ?W = "demo_world (Some [recA, recB])"
  note main = search_returns_matching_records[OF search_demo_full parquet_demo
      full_query_fields(1)]
  have wl: "wildcard_free (toLowerCase ?W (license full_query))"
    by (simp add: wildcard_free_def full_query_fields lower_demo lower_examples)
  have wq: "wildcard_free (toLowerCase ?W (query full_query))"
    by (simp add: wildcard_free_def full_query_fields lower_demo lower_examples)
  have m: "toFeature (select_row recA) \<in> set [toFeature (select_row recA)]" by simp
  from main[THEN conjunct1, THEN bspec, OF m] wl wq
  have 1: "\<exists>r \<in> set [recA, recB].
       toFeature (select_row recA) = toFeature (select_row r) \<and>
       xmax (col_bbox r) \<ge> -10 \<and> xmin (col_bbox r) \<le> 10 \<and>
       ymax (col_bbox r) \<ge> -10 \<and> ymin (col_bbox r) \<le> 10 \<and>
       dateStart_ok ?W full_query r \<and> dateEnd_ok ?W full_query r \<and>
       platform_ok ?W full_query r \<and> maxGsd_ok full_query r \<and>
       license_contains ?W full_query r \<and> title_contains ?W full_query r"
    by blast
  have "length [toFeature (select_row recA)] < limit full_query"
    by (simp add: full_query_fields)
  with main[THEN conjunct2, THEN conjunct1] full_query_rows(1)[of "Some [recA, recB]"]
  have 2: "is_returned ?W initial_module full_query recA" by simp
  from 1 2 search_demo_full wl wq full_query_fields(1) show ?thesis by blast
qed

lemma feature_ne_AC: "toFeature (select_row recC) \<noteq> toFeature (select_row recA)"
proof
  assume "toFeature (select_row recC) = toFeature (select_row recA)"
  then have "prop_id (properties (toFeature (select_row recC))) =
             prop_id (properties (toFeature (select_row recA)))" by simp
  then show False by (simp add: feature_of_row recA_def recC_def example_record_cols)
qed

lemma variant_casts:
  "casts_ok w (scenario_query\<lparr> license := l \<rparr>)"
  "casts_ok w (scenario_query\<lparr> platform := p \<rparr>)"
  "casts_ok w (scenario_query\<lparr> limit := n \<rparr>)"
  "casts_ok w (scenario_query\<lparr> query := t \<rparr>)"
  by (simp_all add: casts_ok_def scenario_query_def default_params_def)

lemma variant_limits:
  "limit (scenario_query\<lparr> license := l \<rparr>) = 200"
  "limit (scenario_query\<lparr> platform := p \<rparr>) = 200"
  "limit (scenario_query\<lparr> limit := n \<rparr>) = n"
  "limit (scenario_query\<lparr> query := t \<rparr>) = 200"
  by (simp_all add: scenario_query_def default_params_def)

lemma license_cc_rows:
  "row_matches (demo_world st) (scenario_query\<lparr> license := ''cc'' \<rparr>) recA"
  "\<not> claimed_matches (demo_world st) (scenario_query\<lparr> license := ''cc'' \<rparr>) recA"
proof -
  have l: "like_match ''%cc%'' ''cc-by 4.0''" by simp
  show "row_matches (demo_world st) (scenario_query\<lparr> license := ''cc'' \<rparr>) recA"
    using l
    by (simp add: row_matches_def bbox_ok_def dateStart_ok_def dateEnd_ok_def platform_ok_def
          license_ok_def maxGsd_ok_def query_ok_def scenario_query_def default_params_def
          recA_def example_record_cols lower_examples lower_demo)
  show "\<not> claimed_matches (demo_world st) (scenario_query\<lparr> license := ''cc'' \<rparr>) recA"
    by (simp add: claimed_matches_def scenario_query_def default_params_def
          recA_def example_record_cols lower_examples lower_demo)
qed

lemma platform_uav_rows:
  "row_matches (demo_world st) (scenario_query\<lparr> platform := ''uav'' \<rparr>) recA"
  "\<not> claimed_matches (demo_world st) (scenario_query\<lparr> platform := ''uav'' \<rparr>) recA"
proof -
  show "row_matches (demo_world st) (scenario_query\<lparr> platform := ''uav'' \<rparr>) recA"
    by (simp add: row_matches_def bbox_ok_def dateStart_ok_def dateEnd_ok_def platform_ok_def
          license_ok_def maxGsd_ok_def query_ok_def scenario_query_def default_params_def
          recA_def example_record_cols lower_examples lower_demo)
  show "\<not> claimed_matches (demo_world st) (scenario_query\<lparr> platform := ''uav'' \<rparr>) recA"
    by (simp add: claimed_matches_def scenario_query_def default_params_def
          recA_def example_record_cols lower_examples lower_demo)
qed

lemma limit_irrelevant:
  "row_matches w (q\<lparr> limit := n \<rparr>) r = row_matches w q r"
  "claimed_matches w (q\<lparr> limit := n \<rparr>) r = claimed_matches w q r"
  by (simp_all add: row_matches_def claimed_matches_def bbox_ok_def dateStart_ok_def
        dateEnd_ok_def platform_ok_def license_ok_def maxGsd_ok_def query_ok_def
        cong: option.case_cong)

lemma scenario_claimed:
  "claimed_matches w scenario_query r \<longleftrightarrow>
   xmax (col_bbox r) \<ge> -10 \<and> xmin (col_bbox r) \<le> 10 \<and> ymax (col_bbox r) \<ge> -10 \<and> ymin (col_bbox r) \<le> 10"
  by (simp add: claimed_matches_def bbox_ok_def dateStart_ok_def dateEnd_ok_def
        scenario_query_def default_params_def)

lemma claimed_recC: "claimed_matches (demo_world st) scenario_query recC"
  by (simp add: scenario_claimed recC_def example_record_cols)

lemma query_wild_rows:
  "row_matches (demo_world st) (scenario_query\<lparr> query := ''_'' \<rparr>) recA"
  "\<not> claimed_matches (demo_world st) (scenario_query\<lparr> query := ''_'' \<rparr>) recA"
proof -
  have l: "like_match ''%_%'' ''a''" by simp
  show "row_matches (demo_world st) (scenario_query\<lparr> query := ''_'' \<rparr>) recA"
    using l
    by (simp add: row_matches_def bbox_ok_def dateStart_ok_def dateEnd_ok_def platform_ok_def
          license_ok_def maxGsd_ok_def query_ok_def scenario_query_def default_params_def
          recA_def example_record_cols lower_examples lower_demo)
  have "\<not> sublist ''_'' ''a''" by (simp add: sublist_Cons_right)
  then show "\<not> claimed_matches (demo_world st) (scenario_query\<lparr> query := ''_'' \<rparr>) recA"
    by (simp add: claimed_matches_def scenario_query_def default_params_def
          recA_def example_record_cols lower_examples lower_demo)
qed

lemma order_demo_AC: "order_by_datetime_desc [recA, recC] = [recA, recC]"
  by (simp add: order_by_datetime_desc_def recA_def recC_def example_record_cols)

lemma search_demo_license:
  "fst (searchCatalog (demo_world (Some [recA])) initial_module (scenario_query\<lparr> license := ''cc'' \<rparr>)) =
     Inr [toFeature (select_row recA)]"
  using search_demo[where q = "scenario_query\<lparr> license := ''cc'' \<rparr>" and store = "[recA]",
          OF variant_casts(1)]
  by (simp add: license_cc_rows order_single variant_limits)

lemma search_demo_platform:
  "fst (searchCatalog (demo_world (Some [recA])) initial_module (scenario_query\<lparr> platform := ''uav'' \<rparr>)) =
     Inr [toFeature (select_row recA)]"
  using search_demo[where q = "scenario_query\<lparr> platform := ''uav'' \<rparr>" and store = "[recA]",
          OF variant_casts(2)]
  by (simp add: platform_uav_rows order_single variant_limits)

lemma search_demo_limit:
  "fst (searchCatalog (demo_world (Some [recA, recC])) initial_module (scenario_query\<lparr> limit := 1 \<rparr>)) =
     Inr [toFeature (select_row recA)]"
  using search_demo[where q = "scenario_query\<lparr> limit := 1 \<rparr>" and store = "[recA, recC]",
          OF variant_casts(3)]
  by (simp add: limit_irrelevant scenario_rows order_demo_AC variant_limits)

lemma search_demo_wild:
  "fst (searchCatalog (demo_world (Some [recA])) initial_module (scenario_query\<lparr> query := ''_'' \<rparr>)) =
     Inr [toFeature (select_row recA)]"
  using search_demo[where q = "scenario_query\<lparr> query := ''_'' \<rparr>" and store = "[recA]",
          OF variant_casts(4)]
  by (simp add: query_wild_rows order_single variant_limits)

text \<open>
  Claim C1 as stated fails in four ways: the license filter \<^verbatim>\<open>cc\<close> returns a record whose
  license is \<^verbatim>\<open>CC-BY 4.0\<close>; the platform filter \<^verbatim>\<open>uav\<close> returns a record whose platform is
  \<^verbatim>\<open>Drone\<close>; with \<^verbatim>\<open>limit\<close> 1 and two matching records one of them is not returned; and the
  text filter \<^verbatim>\<open>_\<close> returns a record whose title has no underscore.
\<close>

theorem returned_iff_claimed_counterexample:
  "(is_returned (demo_world (Some [recA])) initial_module (scenario_query\<lparr> license := ''cc'' \<rparr>) recA \<and>
    \<not> claimed_matches (demo_world (Some [recA])) (scenario_query\<lparr> license := ''cc'' \<rparr>) recA) \<and>
   (is_returned (demo_world (Some [recA])) initial_module (scenario_query\<lparr> platform := ''uav'' \<rparr>) recA \<and>
    \<not> claimed_matches (demo_world (Some [recA])) (scenario_query\<lparr> platform := ''uav'' \<rparr>) recA) \<and>
   (\<not> is_returned (demo_world (Some [recA, recC])) initial_module (scenario_query\<lparr> limit := 1 \<rparr>) recC \<and>
    claimed_matches (demo_world (Some [recA, recC])) (scenario_query\<lparr> limit := 1 \<rparr>) recC) \<and>
   (is_returned (demo_world (Some [recA])) initial_module (scenario_query\<lparr> query := ''_'' \<rparr>) recA \<and>
    \<not> claimed_matches (demo_world (Some [recA])) (scenario_query\<lparr> query := ''_'' \<rparr>) recA)"
  using search_demo_limit
  by (simp add: is_returned_def search_demo_license search_demo_platform search_demo_wild
        license_cc_rows platform_uav_rows limit_irrelevant claimed_recC query_wild_rows
        feature_ne_AC)

section \<open>Claims about \<^verbatim>\<open>initCatalog\<close> and \<^verbatim>\<open>getCatalogStats\<close>\<close>

lemma setup_body_keeps:
  "initPromise (setup_body w p m) = initPromise m"
  "length (promises (setup_body w p m)) = length (promises m)"
  by (auto simp: setup_body_def settle_def Let_def split: option.splits)

lemma init_inv_step: "init_inv s \<Longrightarrow> init_inv (init_step s e)"
proof (cases e)
  case (Call c)
  assume "init_inv s"
  then show ?thesis using Call
    by (auto simp: init_inv_def initCatalog_def Let_def split: option.splits)
next
  case (SetupRuns p w)
  assume "init_inv s"
  then show ?thesis using SetupRuns
    by (auto simp: init_inv_def setup_body_keeps)
qed

lemma init_inv_run: "init_inv (run_init es)"
proof (induction es rule: rev_induct)
  case Nil
  then show ?case by (simp add: run_init_def init_inv_def initial_sys_def initial_module_def)
next
  case (snoc e es)
  then show ?case using init_inv_step[of "run_init es" e] by (simp add: run_init_def)
qed

lemma returned_step: "fst ` set (returned s) \<subseteq> fst ` set (returned (init_step s e))"
  by (cases e) (auto simp: case_prod_unfold Let_def)

lemma call_returned: "Call c \<in> set es \<Longrightarrow> c \<in> fst ` set (returned (run_init es))"
proof (induction es rule: rev_induct)
  case Nil
  then show ?case by simp
next
  case (snoc e es)
  show ?case
  proof (cases "e = Call c")
    case True
    then show ?thesis by (simp add: run_init_def case_prod_unfold Let_def)
  next
    case False
    with snoc have "c \<in> fst ` set (returned (run_init es))" by auto
    with returned_step[of "run_init es" e] show ?thesis by (auto simp: run_init_def)
  qed
qed

lemma observed_is_first:
  assumes "init_inv s" "observed s c = Some x"
  shows "x = promise_at (mstate s) 0"
proof -
  from assms(2) obtain p where p: "map_of (returned s) c = Some p" "x = promise_at (mstate s) p"
    by (auto simp: observed_def)
  from p(1) have "(c, p) \<in> set (returned s)" by (rule map_of_SomeD)
  with assms(1) have "p = 0" by (auto simp: init_inv_def)
  with p(2) show ?thesis by simp
qed

text \<open>
  Claim C4. Initialisation is single-flight. After any interleaving of calls of
  \<^verbatim>\<open>initCatalog\<close> and completions of the set-up: at most one set-up was ever started, and
  exactly one as soon as there was a call; every caller was handed that one promise; so any
  two callers observe the same state of it, and if one caller observes it rejected with an
  error then every caller observes it rejected with the same error.
\<close>

theorem init_single_flight:
  "length (promises (mstate (run_init es))) \<le> 1 \<and>
   ((\<exists>c. Call c \<in> set es) \<longrightarrow> length (promises (mstate (run_init es))) = 1) \<and>
   (\<forall>c p. (c, p) \<in> set (returned (run_init es)) \<longrightarrow> p = 0) \<and>
   (\<forall>c c' x. observed (run_init es) c = Some x \<longrightarrow> observed (run_init es) c' \<noteq> None \<longrightarrow>
        observed (run_init es) c' = Some x) \<and>
   (\<forall>c c' e. observed (run_init es) c = Some (Rejected e) \<longrightarrow> Call c' \<in> set es \<longrightarrow>
        observed (run_init es) c' = Some (Rejected e))"
proof -
  have inv: "init_inv (run_init es)" by (rule init_inv_run)
  have 1: "length (promises (mstate (run_init es))) \<le> 1"
    using inv by (auto simp: init_inv_def)
  have 2: "length (promises (mstate (run_init es))) = 1" if "Call c \<in> set es" for c
  proof -
    from call_returned[OF that] have "returned (run_init es) \<noteq> []" by auto
    with inv show ?thesis by (auto simp: init_inv_def)
  qed
  have 3: "p = 0" if "(c, p) \<in> set (returned (run_init es))" for c p
    using inv that by (auto simp: init_inv_def)
  have 4: "observed (run_init es) c' = Some x"
    if "observed (run_init es) c = Some x" "observed (run_init es) c' \<noteq> None" for c c' x
  proof -
    from that(2) obtain y where y: "observed (run_init es) c' = Some y" by auto
    from observed_is_first[OF inv that(1)] observed_is_first[OF inv y] y show ?thesis by simp
  qed
  have 5: "observed (run_init es) c' = Some (Rejected e)"
    if "observed (run_init es) c = Some (Rejected e)" "Call c' \<in> set es" for c c' e
  proof -
    from call_returned[OF that(2)] have "map_of (returned (run_init es)) c' \<noteq> None"
      by (simp add: map_of_eq_None_iff)
    then have "observed (run_init es) c' \<noteq> None" by (simp add: observed_def)
    with 4[OF that(1)] show ?thesis by simp
  qed
  from 1 2 3 4 5 show ?thesis by blast
qed

lemma run_init_example:
  "run_init [Call 10, Call 20, SetupRuns 0 failing_world, Call 30] =
     \<lparr> mstate = \<lparr> db = Some 0, conn = None, initPromise = Some 0,
                  promises = [Rejected (ConnectionError ''instantiate failed'')] \<rparr>,
       returned = [(10, 0), (20, 0), (30, 0)] \<rparr>"
  by (simp add: run_init_def initial_sys_def initial_module_def initCatalog_def setup_body_def
        settle_def promise_at_def failing_world_def demo_world_def)

theorem init_single_flight_witness:
  "observed (run_init [Call 10, Call 20, SetupRuns 0 failing_world, Call 30]) 10 =
     Some (Rejected (ConnectionError ''instantiate failed'')) \<and>
   Call 30 \<in> set [Call 10, Call 20, SetupRuns 0 failing_world, Call 30] \<and>
   observed (run_init [Call 10, Call 20, SetupRuns 0 failing_world, Call 30]) 30 =
     Some (Rejected (ConnectionError ''instantiate failed'')) \<and>
   length (promises (mstate (run_init [Call 10, Call 20, SetupRuns 0 failing_world, Call 30]))) = 1"
proof -
  have o: "observed (run_init [Call 10, Call 20, SetupRuns 0 failing_world, Call 30]) 10 =
     Some (Rejected (ConnectionError ''instantiate failed''))"
    by (simp add: run_init_example observed_def promise_at_def)
  have c: "Call 30 \<in> set [Call 10, Call 20, SetupRuns 0 failing_world, Call 30]" by simp
  from init_single_flight[of "[Call 10, Call 20, SetupRuns 0 failing_world, Call 30]"] o c
  show ?thesis by blast
qed

lemma getCatalogStats_init_fails:
  "fst (ensure_conn w s) = Inl e \<Longrightarrow> fst (getCatalogStats w s) = Inl e"
  by (auto simp: getCatalogStats_def split: prod.splits sum.splits)

lemma getCatalogStats_connected:
  "fst (ensure_conn w s) = Inr u \<Longrightarrow> \<exists>st. fst (getCatalogStats w s) = Inr st"
  by (auto simp: getCatalogStats_def split: prod.splits sum.splits option.splits list.splits)

lemma getCatalogStats_query_fails:
  "fst (ensure_conn w s) = Inr u \<Longrightarrow> parquet w = None \<Longrightarrow>
   fst (getCatalogStats w s) = Inr zero_stats"
  by (auto simp: getCatalogStats_def stats_query_def split: prod.splits sum.splits option.splits)

text \<open>
  Claim C9, as amended. \<^verbatim>\<open>getCatalogStats\<close> returns the zeroed default statistics whenever
  the catalog query fails (for instance because the catalog file does not exist), and it
  returns a statistics object whenever the connection exists or \<^verbatim>\<open>initCatalog\<close> succeeds; the
  only error it lets through to its caller is that of a failing \<^verbatim>\<open>initCatalog\<close>, which it
  awaits outside its \<^verbatim>\<open>try\<close> block when there is no connection yet.
\<close>

theorem stats_default_on_query_failure:
  "(fst (ensure_conn w s) = Inr () \<longrightarrow>
      (\<exists>st. fst (getCatalogStats w s) = Inr st) \<and>
      (parquet w = None \<longrightarrow> fst (getCatalogStats w s) = Inr zero_stats)) \<and>
   (\<forall>e. fst (getCatalogStats w s) = Inl e \<longleftrightarrow> fst (ensure_conn w s) = Inl e)"
proof -
  have "fst (getCatalogStats w s) = Inl e \<longleftrightarrow> fst (ensure_conn w s) = Inl e" for e
  proof (cases "fst (ensure_conn w s)")
    case (Inl a)
    from getCatalogStats_init_fails[OF this] Inl show ?thesis by simp
  next
    case (Inr b)
    from getCatalogStats_connected[OF this] Inr show ?thesis by auto
  qed
  then show ?thesis
    using getCatalogStats_connected[of w s "()"] getCatalogStats_query_fails[of w s "()"]
    by blast
qed

lemma ensure_conn_demo: "fst (ensure_conn (demo_world st) initial_module) = Inr ()"
  by (simp add: ensure_conn_def await_initCatalog_def initCatalog_def setup_body_def
        settle_def promise_at_def demo_world_def initial_module_def)

theorem stats_default_on_query_failure_witness:
  "fst (ensure_conn (demo_world None) initial_module) = Inr () \<and>
   parquet (demo_world None) = None \<and>
   fst (getCatalogStats (demo_world None) initial_module) = Inr zero_stats"
  using stats_default_on_query_failure[of "demo_world None" initial_module]
  by (simp add: ensure_conn_demo parquet_demo)

text \<open>
  Claim C9 as stated fails: when no connection exists and the set-up cannot select a DuckDB
  bundle, \<^verbatim>\<open>getCatalogStats\<close> lets that error through instead of returning the defaults.
\<close>

theorem stats_never_throws_counterexample:
  "fst (getCatalogStats no_bundle_world initial_module) = Inl (ConnectionError ''no bundle'')"
  by (simp add: getCatalogStats_def ensure_conn_def await_initCatalog_def initCatalog_def
        setup_body_def settle_def promise_at_def no_bundle_world_def demo_world_def
        initial_module_def)

lemma getCatalogStats_example:
  "fst (getCatalogStats (demo_world (Some [recA, recD])) initial_module) =
     Inr \<lparr> totalImages = 2, earliest = Some 100, latest = Some 200, platformCount = 1,
           totalSizeBytes = 2048 \<rparr>"
  by (simp add: getCatalogStats_def ensure_conn_def await_initCatalog_def initCatalog_def
        setup_body_def settle_def promise_at_def demo_world_def initial_module_def
        stats_query_def aggregate_def recA_def recD_def example_record_def
        List.map_filter_def MAX_SAFE_INTEGER_def Number_bigint_exact)

lemma getCatalogStats_unsafe_sum:
  "fst (getCatalogStats (demo_world (Some [recBig])) initial_module) = Inr zero_stats"
  by (simp add: getCatalogStats_def ensure_conn_def await_initCatalog_def initCatalog_def
        setup_body_def settle_def promise_at_def demo_world_def initial_module_def
        stats_query_def aggregate_def recBig_def example_record_def
        List.map_filter_def MAX_SAFE_INTEGER_def)

section \<open>Claims about \<^verbatim>\<open>App\<close> and \<^verbatim>\<open>UploadModal\<close>\<close>

lemma resume_success:
  "i \<in> fst ` set (inflight st) \<Longrightarrow> features (runSearch_resume i (Inr rs) st) = rs"
  by (simp add: runSearch_resume_def)

lemma resume_failure: "features (runSearch_resume i (Inl e) st) = features st"
  by (simp add: runSearch_resume_def)

lemma resume_unknown: "i \<notin> fst ` set (inflight st) \<Longrightarrow> runSearch_resume i out st = st"
  by (simp add: runSearch_resume_def)

lemma other_events_keep_features:
  "(\<And>i rs. ev \<noteq> SearchSettles i (Inr rs)) \<Longrightarrow> features (app_step st ev) = features st"
proof (cases ev)
  case (SearchSettles i out)
  assume a: "\<And>i rs. ev \<noteq> SearchSettles i (Inr rs)"
  with SearchSettles obtain e where "out = Inl e" by (cases out) auto
  with SearchSettles show ?thesis by (simp add: resume_failure)
qed (auto simp: search_effect_def runSearch_def split: option.splits)

lemma moved_then_fires:
  "catalogReady st \<Longrightarrow>
   inflight (app_step (app_step st (MapMoved b)) DebounceFires) =
     inflight st @ [(issued st, search_request b (filters st))]"
  by (simp add: search_effect_def render_closure_def runSearch_def)

lemma filtered_then_fires:
  "catalogReady st \<Longrightarrow> viewportBbox st = Some vb \<Longrightarrow>
   inflight (app_step (app_step st (FilterChanged flt)) DebounceFires) =
     inflight st @ [(issued st, search_request vb flt)]"
  by (simp add: search_effect_def render_closure_def runSearch_def)

text \<open>
  Claim C6, as amended. Search results are applied in completion order: whenever a search
  that is in flight completes successfully, its results become the visible feature list,
  whatever its place in the order of issue and whatever completed before it (so the results
  of an earlier-issued search that completes later replace those of a later-issued one); a
  failed search and every other event leave the list as it is. A newer viewport or a newer
  filter replaces only the search still waiting in the debounce timer, not a search in
  flight: the timer then holds the new viewport or filter alone, and when it fires with the
  catalog ready, the search it starts is the one for the new viewport or filter.
\<close>

theorem results_applied_in_completion_order:
  "(i \<in> fst ` set (inflight st) \<longrightarrow> features (app_step st (SearchSettles i (Inr rs))) = rs) \<and>
   (i \<notin> fst ` set (inflight st) \<longrightarrow> app_step st (SearchSettles i out) = st) \<and>
   features (app_step st (SearchSettles i (Inl e))) = features st \<and>
   ((\<forall>j rs'. ev \<noteq> SearchSettles j (Inr rs')) \<longrightarrow> features (app_step st ev) = features st) \<and>
   searchDebounce (app_step st (MapMoved b)) = Some (catalogReady st, Some b, filters st) \<and>
   inflight (app_step st (MapMoved b)) = inflight st \<and>
   searchDebounce (app_step st (FilterChanged flt)) =
     (case viewportBbox st of None \<Rightarrow> None | Some vb \<Rightarrow> Some (catalogReady st, Some vb, flt)) \<and>
   inflight (app_step st (FilterChanged flt)) = inflight st \<and>
   (catalogReady st \<longrightarrow>
      inflight (app_step (app_step st (MapMoved b)) DebounceFires) =
        inflight st @ [(issued st, search_request b (filters st))]) \<and>
   (catalogReady st \<and> viewportBbox st = Some vb' \<longrightarrow>
      inflight (app_step (app_step st (FilterChanged flt)) DebounceFires) =
        inflight st @ [(issued st, search_request vb' flt)])"
proof -
  have 1: "i \<in> fst ` set (inflight st) \<longrightarrow> features (app_step st (SearchSettles i (Inr rs))) = rs"
    by (simp add: resume_success)
  have 2: "i \<notin> fst ` set (inflight st) \<longrightarrow> app_step st (SearchSettles i out) = st"
    by (simp add: resume_unknown)
  have 3: "features (app_step st (SearchSettles i (Inl e))) = features st"
    by (simp add: resume_failure)
  have 4: "(\<forall>j rs'. ev \<noteq> SearchSettles j (Inr rs')) \<longrightarrow> features (app_step st ev) = features st"
    using other_events_keep_features[of ev st] by blast
  have 5: "searchDebounce (app_step st (MapMoved b)) = Some (catalogReady st, Some b, filters st)"
    "inflight (app_step st (MapMoved b)) = inflight st"
    by (simp_all add: search_effect_def render_closure_def)
  have 6: "searchDebounce (app_step st (FilterChanged flt)) =
     (case viewportBbox st of None \<Rightarrow> None | Some vb \<Rightarrow> Some (catalogReady st, Some vb, flt))"
    "inflight (app_step st (FilterChanged flt)) = inflight st"
    by (simp_all add: search_effect_def render_closure_def split: option.splits)
  have 7: "catalogReady st \<longrightarrow>
      inflight (app_step (app_step st (MapMoved b)) DebounceFires) =
        inflight st @ [(issued st, search_request b (filters st))]"
    using moved_then_fires by blast
  have 8: "catalogReady st \<and> viewportBbox st = Some vb' \<longrightarrow>
      inflight (app_step (app_step st (FilterChanged flt)) DebounceFires) =
        inflight st @ [(issued st, search_request vb' flt)]"
    using filtered_then_fires by blast
  show ?thesis using 1 2 3 4 5 6 7 8 by (intro conjI)
qed

lemma out_of_order_state:
  "app_run (initial_app no_filters) out_of_order =
     \<lparr> features = results_new, isSearching = False, catalogReady = True,
       viewportBbox = Some viewport_new, filters = no_filters, searchDebounce = None,
       uploadClosure = None,
       inflight = [(0, search_request viewport_old no_filters)], issued = 2 \<rparr>"
  by (simp add: app_run_def out_of_order_def initial_app_def search_effect_def runSearch_def
        runSearch_resume_def render_closure_def)

lemma results_differ: "results_old \<noteq> results_new"
proof
  assume "results_old = results_new"
  then have "prop_id (properties (toFeature (select_row recA))) =
             prop_id (properties (toFeature (select_row recD)))"
    by (simp add: results_old_def results_new_def)
  then show False by (simp add: feature_of_row recA_def recD_def example_record_cols)
qed

theorem results_applied_in_completion_order_witness:
  "0 \<in> fst ` set (inflight (app_run (initial_app no_filters) out_of_order)) \<and>
   features (app_step (app_run (initial_app no_filters) out_of_order)
               (SearchSettles 0 (Inr results_old))) = results_old \<and>
   catalogReady (app_run (initial_app no_filters) out_of_order) \<and>
   viewportBbox (app_run (initial_app no_filters) out_of_order) = Some viewport_new \<and>
   inflight (app_step (app_step (app_run (initial_app no_filters) out_of_order)
                         (FilterChanged uav_filter)) DebounceFires) =
     [(0, search_request viewport_old no_filters), (2, search_request viewport_new uav_filter)]"
proof -
  let ?st = "app_run (initial_app no_filters) out_of_order"
  have m: "0 \<in> fst ` set (inflight ?st)"
    by (simp add: out_of_order_state)
  have c: "catalogReady ?st" and v: "viewportBbox ?st = Some viewport_new"
    and i: "inflight ?st = [(0, search_request viewport_old no_filters)]" "issued ?st = 2"
    by (simp_all add: out_of_order_state)
  note main = results_applied_in_completion_order[where i = 0 and st = ?st
      and rs = results_old and vb' = viewport_new and flt = uav_filter]
  from main m have f: "features (app_step ?st (SearchSettles 0 (Inr results_old))) = results_old"
    by blast
  from main c v have "inflight (app_step (app_step ?st (FilterChanged uav_filter)) DebounceFires) =
      inflight ?st @ [(issued ?st, search_request viewport_new uav_filter)]"
    by blast
  then have g: "inflight (app_step (app_step ?st (FilterChanged uav_filter)) DebounceFires) =
      [(0, search_request viewport_old no_filters), (2, search_request viewport_new uav_filter)]"
    by (simp only: i append.simps)
  from m f c v g show ?thesis by blast
qed

text \<open>
  Claim C6 as stated fails: search 0 is issued before search 1, search 1 completes first and
  its results are shown; when search 0 then completes, its results replace them.
\<close>

theorem stale_result_discarded_counterexample:
  "features (app_run (initial_app no_filters) out_of_order) = results_new \<and>
   features (app_run (initial_app no_filters) (out_of_order @ [SearchSettles 0 (Inr results_old)])) =
     results_old \<and>
   results_old \<noteq> results_new"
  using results_differ
  by (simp add: app_run_def out_of_order_state[unfolded app_run_def] runSearch_resume_def)

lemma poll_inv_tick: "poll_inv c \<Longrightarrow> poll_inv (poll_tick c)"
  by (auto simp: poll_inv_def poll_tick_def Let_def)

lemma poll_response_counts:
  "fetches_sent (poll_response r c) = fetches_sent c"
  "pollCount (poll_response r c) = pollCount c"
  "poll_active (poll_response r c) \<Longrightarrow> poll_active c"
  by (auto simp: poll_response_def Let_def split: fetch_result.splits option.splits if_splits)

lemma poll_inv_response: "poll_inv c \<Longrightarrow> poll_inv (poll_response r c)"
  using poll_response_counts[of r c] by (auto simp: poll_inv_def)

lemma poll_inv_step: "poll_inv (client s) \<Longrightarrow> poll_inv (client (poll_step s ev))"
  by (cases ev) (auto simp: poll_inv_tick poll_inv_response)

lemma poll_run_snoc: "poll_run s (es @ [ev]) = poll_step (poll_run s es) ev"
  by (simp add: poll_run_def)

lemma poll_inv_run: "poll_inv (client s) \<Longrightarrow> poll_inv (client (poll_run s es))"
  by (induction es rule: rev_induct) (simp_all add: poll_run_def poll_inv_step)

lemma poll_inv_start: "poll_inv (client (start_polling ident))"
  by (simp add: poll_inv_def start_polling_def pollStatus_def)

lemma fetches_bounded: "fetches_sent (client (poll_run (start_polling ident) es)) \<le> maxPolls"
  using poll_inv_run[OF poll_inv_start, of ident es] by (simp add: poll_inv_def)

lemma quiet_response:
  assumes "quiet (Response r)"
  shows "status (poll_response r c) = status c" "error_msg (poll_response r c) = error_msg c"
    "poll_active (poll_response r c) = poll_active c"
  using assms
  by (cases r; auto simp: poll_response_def Let_def split: option.splits)+

lemma quiet_state_tick: "quiet_state n c \<Longrightarrow> quiet_state (Suc n) (poll_tick c)"
  by (auto simp: quiet_state_def poll_tick_def Let_def)

lemma quiet_state_response:
  "quiet (Response r) \<Longrightarrow> quiet_state n c \<Longrightarrow> quiet_state n (poll_response r c)"
  by (simp add: quiet_state_def quiet_response poll_response_counts)

lemma quiet_run:
  assumes "\<forall>ev \<in> set es. quiet ev"
  shows "quiet_state (ticks es) (client (poll_run (start_polling ident) es))"
  using assms
proof (induction es rule: rev_induct)
  case Nil
  then show ?case
    by (simp add: quiet_state_def ticks_def poll_run_def start_polling_def pollStatus_def maxPolls_def)
next
  case (snoc ev es)
  then have IH: "quiet_state (ticks es) (client (poll_run (start_polling ident) es))"
    and q: "quiet ev" by auto
  show ?case
  proof (cases ev)
    case Tick
    with quiet_state_tick[OF IH] show ?thesis by (simp add: poll_run_snoc ticks_def)
  next
    case (Response r)
    with quiet_state_response[OF _ IH, of r] q show ?thesis
      by (simp add: poll_run_snoc ticks_def)
  next
    case (PipelineWrites d)
    with IH show ?thesis by (simp add: poll_run_snoc ticks_def)
  qed
qed

lemma pipeline_writes_snoc:
  "pipeline_writes (es @ [ev]) =
     (case ev of PipelineWrites d \<Rightarrow> pipeline_writes es @ [d] | _ \<Rightarrow> pipeline_writes es)"
  by (induction es rule: pipeline_writes.induct) (auto split: poll_event.splits)

lemma remote_run:
  "remote (poll_run s es) =
     (if pipeline_writes es = [] then remote s else Some (last (pipeline_writes es)))"
proof (induction es rule: rev_induct)
  case Nil
  then show ?case by (simp add: poll_run_def)
next
  case (snoc ev es)
  then show ?case
    by (cases ev) (simp_all add: poll_run_snoc pipeline_writes_snoc)
qed

text \<open>
  Claim C8. Status polling for an upload job is bounded by a maximum attempt count, which
  the polling client sets (\<^verbatim>\<open>maxPolls\<close>, 120, in \<^verbatim>\<open>pollStatus\<close>): whatever happens, at most
  120 status requests are sent; as long as no response ends the polling, the client keeps
  polling in status \<^verbatim>\<open>processing\<close> for the first 120 ticks, and once the bound is exceeded,
  from tick 121 on, it has stopped polling and reports the error state with the timeout
  message. The timeout is the client's outcome only: the client never writes the status
  document of the pipeline, which is whatever the pipeline wrote last, so the pipeline may
  still be running and complete afterwards.
\<close>

theorem polling_bounded_by_fixed_maximum:
  "maxPolls = 120 \<and>
   fetches_sent (client (poll_run (start_polling ident) es)) \<le> 120 \<and>
   ((\<forall>ev \<in> set es. quiet ev) \<and> ticks es \<le> 120 \<longrightarrow>
      poll_active (client (poll_run (start_polling ident) es)) \<and>
      status (client (poll_run (start_polling ident) es)) = Processing) \<and>
   ((\<forall>ev \<in> set es. quiet ev) \<and> ticks es > 120 \<longrightarrow>
      \<not> poll_active (client (poll_run (start_polling ident) es)) \<and>
      status (client (poll_run (start_polling ident) es)) = Error \<and>
      error_msg (client (poll_run (start_polling ident) es)) = timeout_message \<and>
      fetches_sent (client (poll_run (start_polling ident) es)) = 120) \<and>
   remote (poll_run (start_polling ident) es) =
     (if pipeline_writes es = [] then None else Some (last (pipeline_writes es)))"
proof -
  have r: "remote (start_polling ident) = None" by (simp add: start_polling_def)
  show ?thesis
    using fetches_bounded[of ident es] quiet_run[of es ident] remote_run[of "start_polling ident" es] r
    by (auto simp: quiet_state_def maxPolls_def)
qed

lemma ticks_replicate: "ticks (replicate n Tick @ es) = n + ticks es"
  by (simp add: ticks_def)

lemma pipeline_writes_replicate: "pipeline_writes (replicate n Tick) = []"
  by (induction n) simp_all

lemma quiet_replicate: "\<forall>ev \<in> set (replicate n Tick). quiet ev"
  by simp

theorem polling_bounded_by_fixed_maximum_witness:
  "ticks (replicate 120 Tick) = 120 \<and>
   poll_active (client (poll_run (start_polling ''job'') (replicate 120 Tick))) \<and>
   status (client (poll_run (start_polling ''job'') (replicate 120 Tick))) = Processing \<and>
   ticks (replicate 121 Tick @ [PipelineWrites complete_doc]) = 121 \<and>
   status (client (poll_run (start_polling ''job'') (replicate 121 Tick @ [PipelineWrites complete_doc]))) = Error \<and>
   error_msg (client (poll_run (start_polling ''job'') (replicate 121 Tick @ [PipelineWrites complete_doc]))) =
     timeout_message \<and>
   fetches_sent (client (poll_run (start_polling ''job'') (replicate 121 Tick @ [PipelineWrites complete_doc]))) =
     120 \<and>
   remote (poll_run (start_polling ''job'') (replicate 121 Tick @ [PipelineWrites complete_doc])) =
     Some complete_doc"
proof -
  have q: "\<forall>ev \<in> set (replicate 121 Tick @ [PipelineWrites complete_doc]). quiet ev" by simp
  have t: "ticks (replicate 121 Tick @ [PipelineWrites complete_doc]) = 121"
    by (simp add: ticks_replicate ticks_def)
  have w: "pipeline_writes (replicate 121 Tick @ [PipelineWrites complete_doc]) = [complete_doc]"
    by (simp add: pipeline_writes_snoc pipeline_writes_replicate)
  have t': "ticks (replicate 120 Tick) = 120"
    using ticks_replicate[of 120 "[]"] by (simp add: ticks_def)
  from t' have t'': "ticks (replicate 120 Tick) \<le> 120" by simp
  from polling_bounded_by_fixed_maximum[of "''job''" "replicate 120 Tick"] quiet_replicate[of 120] t''
  have a: "poll_active (client (poll_run (start_polling ''job'') (replicate 120 Tick))) \<and>
      status (client (poll_run (start_polling ''job'') (replicate 120 Tick))) = Processing"
    by blast
  from polling_bounded_by_fixed_maximum[of "''job''"
         "replicate 121 Tick @ [PipelineWrites complete_doc]"] q t w
  have b: "status (client (poll_run (start_polling ''job'') (replicate 121 Tick @ [PipelineWrites complete_doc]))) = Error \<and>
   error_msg (client (poll_run (start_polling ''job'') (replicate 121 Tick @ [PipelineWrites complete_doc]))) =
     timeout_message \<and>
   fetches_sent (client (poll_run (start_polling ''job'') (replicate 121 Tick @ [PipelineWrites complete_doc]))) =
     120 \<and>
   remote (poll_run (start_polling ''job'') (replicate 121 Tick @ [PipelineWrites complete_doc])) =
     Some complete_doc"
    by simp
  from a b t t' show ?thesis by blast
qed

end
